theory Spec2Isabelle
  imports Complex_Main "HOL-Library.Log_Nat" "HOL-Library.Multiset"
begin
section \<open>IEEE 754 binary64 values, as far as the package computes with them\<close>

datatype f64 = NaN | PInf | NInf | Fin real

definition round_even :: "real \<Rightarrow> int" where
  "round_even q =
     (let f = \<lfloor>q\<rfloor>; d = q - of_int f
      in if d < 1/2 then f else if 1/2 < d then f + 1 else if even f then f else f + 1)"

definition expo :: "real \<Rightarrow> int" where
  "expo x = \<lfloor>log 2 \<bar>x\<bar>\<rfloor>"

definition round64 :: "real \<Rightarrow> f64" where
  "round64 x =
     (if x = 0 then Fin 0
      else let e = max (expo x) (- 1022);
               u = 2 powi (e - 52);
               r = of_int (round_even (x / u)) * u
           in if 2 powi 1024 \<le> \<bar>r\<bar> then (if 0 < x then PInf else NInf) else Fin r)"

definition representable :: "real \<Rightarrow> bool" where
  "representable r = (round64 r = Fin r)"

fun fneg :: "f64 \<Rightarrow> f64" where
  "fneg NaN = NaN"
| "fneg PInf = NInf"
| "fneg NInf = PInf"
| "fneg (Fin a) = Fin (- a)"

fun fadd :: "f64 \<Rightarrow> f64 \<Rightarrow> f64" where
  "fadd NaN _ = NaN"
| "fadd _ NaN = NaN"
| "fadd PInf NInf = NaN"
| "fadd NInf PInf = NaN"
| "fadd PInf _ = PInf"
| "fadd _ PInf = PInf"
| "fadd NInf _ = NInf"
| "fadd _ NInf = NInf"
| "fadd (Fin a) (Fin b) = round64 (a + b)"

definition fsub :: "f64 \<Rightarrow> f64 \<Rightarrow> f64" where
  "fsub x y = fadd x (fneg y)"

fun fsgn :: "f64 \<Rightarrow> real" where
  "fsgn NaN = 0"
| "fsgn PInf = 1"
| "fsgn NInf = - 1"
| "fsgn (Fin a) = sgn a"

definition inf_of_sign :: "real \<Rightarrow> f64" where
  "inf_of_sign s = (if s = 0 then NaN else if 0 < s then PInf else NInf)"

fun fmul :: "f64 \<Rightarrow> f64 \<Rightarrow> f64" where
  "fmul NaN _ = NaN"
| "fmul _ NaN = NaN"
| "fmul (Fin a) (Fin b) = round64 (a * b)"
| "fmul x y = inf_of_sign (fsgn x * fsgn y)"

fun fdiv :: "f64 \<Rightarrow> f64 \<Rightarrow> f64" where
  "fdiv NaN _ = NaN"
| "fdiv _ NaN = NaN"
| "fdiv (Fin a) (Fin b) = (if b = 0 then inf_of_sign a else round64 (a / b))"
| "fdiv (Fin a) _ = Fin 0"
| "fdiv x (Fin b) = (if b < 0 then fneg x else x)"
| "fdiv _ _ = NaN"

fun Sqrt :: "f64 \<Rightarrow> f64" where
  "Sqrt NaN = NaN"
| "Sqrt PInf = PInf"
| "Sqrt NInf = NaN"
| "Sqrt (Fin a) = (if a < 0 then NaN else round64 (sqrt a))"

fun floor_sqrt :: "nat \<Rightarrow> nat" where
  "floor_sqrt n =
     (if n < 4 then (if n = 0 then 0 else 1)
      else let r = 2 * floor_sqrt (n div 4)
           in if (r + 1) * (r + 1) \<le> n then r + 1 else r)"

definition sqrt_round :: "real \<Rightarrow> f64" where
  "sqrt_round a =
     (if a = 0 then Fin 0
      else let e = max (expo a div 2) (- 1022);
               u = 2 powi (e - 52);
               t = a / (u * u);
               f = int (floor_sqrt (nat \<lfloor>t\<rfloor>));
               h = of_int f + 1 / 2;
               m = (if t < h * h then f else if h * h < t then f + 1
                    else if even f then f else f + 1);
               r = of_int m * u
           in if 2 powi 1024 \<le> \<bar>r\<bar> then PInf else Fin r)"

fun Abs :: "f64 \<Rightarrow> f64" where
  "Abs NaN = NaN"
| "Abs PInf = PInf"
| "Abs NInf = PInf"
| "Abs (Fin a) = Fin \<bar>a\<bar>"

fun flt :: "f64 \<Rightarrow> f64 \<Rightarrow> bool" where
  "flt NaN _ = False"
| "flt _ NaN = False"
| "flt _ NInf = False"
| "flt PInf _ = False"
| "flt NInf _ = True"
| "flt _ PInf = True"
| "flt (Fin a) (Fin b) = (a < b)"

definition feq :: "f64 \<Rightarrow> f64 \<Rightarrow> bool" where
  "feq x y = (x \<noteq> NaN \<and> x = y)"

definition fle :: "f64 \<Rightarrow> f64 \<Rightarrow> bool" where
  "fle x y = (flt x y \<or> feq x y)"

definition fgt :: "f64 \<Rightarrow> f64 \<Rightarrow> bool" where
  "fgt x y = flt y x"

definition fge :: "f64 \<Rightarrow> f64 \<Rightarrow> bool" where
  "fge x y = fle y x"

definition Max64 :: "f64 \<Rightarrow> f64 \<Rightarrow> f64" where
  "Max64 x y =
     (if x = PInf \<or> y = PInf then PInf
      else if x = NaN \<or> y = NaN then NaN
      else if fgt x y then x else y)"

definition float64_of_int :: "int \<Rightarrow> f64" where
  "float64_of_int k = round64 (of_int k)"

definition float64_less :: "f64 \<Rightarrow> f64 \<Rightarrow> bool" where
  "float64_less a b = (flt a b \<or> (a = NaN \<and> b \<noteq> NaN))"

fun insert64 :: "f64 \<Rightarrow> f64 list \<Rightarrow> f64 list" where
  "insert64 a [] = [a]"
| "insert64 a (b # bs) = (if float64_less a b then a # b # bs else b # insert64 a bs)"

definition Float64s :: "f64 list \<Rightarrow> f64 list" where
  "Float64s xs = foldr insert64 xs []"


section \<open>Errors, checked reads and loops\<close>

datatype panic = IndexOutOfRange | NilDereference

datatype error =
    EmptyInput
  | DimensionMismatch
  | InvalidTau
  | EmptyTauSet
  | FitFailed f64 error
  | Panic panic

definition ebind :: "error + 'a \<Rightarrow> ('a \<Rightarrow> error + 'b) \<Rightarrow> error + 'b" where
  "ebind r k = (case r of Inl e \<Rightarrow> Inl e | Inr v \<Rightarrow> k v)"

definition idx :: "'a list \<Rightarrow> nat \<Rightarrow> error + 'a" where
  "idx xs i = (if i < length xs then Inr (xs ! i) else Inl (Panic IndexOutOfRange))"

definition idx2 :: "'a list list \<Rightarrow> nat \<Rightarrow> nat \<Rightarrow> error + 'a" where
  "idx2 m i j = ebind (idx m i) (\<lambda>row. idx row j)"

fun for_each :: "'i list \<Rightarrow> ('i \<Rightarrow> 's \<Rightarrow> error + 's) \<Rightarrow> 's \<Rightarrow> error + 's" where
  "for_each [] body s = Inr s"
| "for_each (i # is) body s = ebind (body i s) (for_each is body)"

definition copy :: "'a list \<Rightarrow> 'a list \<Rightarrow> 'a list" where
  "copy dst src = take (length dst) src @ drop (length src) dst"

definition lookup64 :: "(f64 \<Rightarrow> 'v option) \<Rightarrow> f64 \<Rightarrow> 'v option" where
  "lookup64 m k = (if k = NaN then None else m k)"

definition store64 :: "(f64 \<Rightarrow> 'v option) \<Rightarrow> f64 \<Rightarrow> 'v \<Rightarrow> (f64 \<Rightarrow> 'v option)" where
  "store64 m k v = (if k = NaN then m else m(k \<mapsto> v))"

section \<open>The constants of both solvers\<close>

definition maxIter :: nat where
  "maxIter = 1000"

definition tolerance :: f64 where
  "tolerance = round64 (1 / 10 ^ 8)"

definition learningRate :: f64 where
  "learningRate = round64 (1 / 100)"

section \<open>The linear fit\<close>

record RQFit =
  Coefficients :: "f64 list"
  Residuals :: "f64 list"
  Fitted :: "f64 list"
  Tau :: f64
  N :: nat
  P :: nat
  Method :: string
  Formula :: string

record CSRMatrix =
  Rows :: nat
  Cols :: nat
  Dense :: "f64 list list"

definition NewCSRMatrix :: "f64 list list \<Rightarrow> CSRMatrix" where
  "NewCSRMatrix x =
     \<lparr>Rows = length x, Cols = (case x of [] \<Rightarrow> 0 | r # _ \<Rightarrow> length r), Dense = x\<rparr>"

definition ToDense :: "CSRMatrix \<Rightarrow> f64 list list" where
  "ToDense m = Dense m"

definition br_pred :: "CSRMatrix \<Rightarrow> f64 list \<Rightarrow> nat \<Rightarrow> nat \<Rightarrow> error + f64" where
  "br_pred x solution p i =
     for_each [0..<p]
       (\<lambda>j pred. ebind (idx2 (ToDense x) i j) (\<lambda>v.
                  ebind (idx solution j) (\<lambda>s. Inr (fadd pred (fmul v s)))))
       (Fin 0)"

definition br_residuals ::
  "f64 list \<Rightarrow> CSRMatrix \<Rightarrow> f64 list \<Rightarrow> nat \<Rightarrow> nat \<Rightarrow> error + f64 list" where
  "br_residuals y x solution n p =
     for_each [0..<n]
       (\<lambda>i residuals. ebind (br_pred x solution p i) (\<lambda>pred.
                       ebind (idx y i) (\<lambda>yi. Inr (residuals[i := fsub yi pred]))))
       (replicate n (Fin 0))"

definition br_grad :: "f64 \<Rightarrow> CSRMatrix \<Rightarrow> f64 list \<Rightarrow> nat \<Rightarrow> nat \<Rightarrow> error + f64" where
  "br_grad tau x residuals n i =
     for_each [0..<n]
       (\<lambda>j grad. ebind (idx residuals j) (\<lambda>r.
          if fgt r (Fin 0)
          then ebind (idx2 (ToDense x) j i) (\<lambda>v. Inr (fadd grad (fmul v (fsub tau (Fin 1)))))
          else ebind (idx2 (ToDense x) j i) (\<lambda>v. Inr (fadd grad (fmul v tau)))))
       (Fin 0)"

definition br_gradients ::
  "f64 \<Rightarrow> CSRMatrix \<Rightarrow> f64 list \<Rightarrow> nat \<Rightarrow> nat \<Rightarrow> error + f64 list \<times> f64" where
  "br_gradients tau x residuals n p =
     for_each [0..<p]
       (\<lambda>i (gradients, maxGrad). ebind (br_grad tau x residuals n i) (\<lambda>grad.
          Inr (gradients[i := grad], Max64 maxGrad (Abs grad))))
       (replicate p (Fin 0), Fin 0)"

definition descend :: "f64 list \<Rightarrow> f64 list \<Rightarrow> nat \<Rightarrow> error + f64 list" where
  "descend solution gradients p =
     for_each [0..<p]
       (\<lambda>i sol. ebind (idx sol i) (\<lambda>s. ebind (idx gradients i) (\<lambda>g.
          Inr (sol[i := fsub s (fmul learningRate g)]))))
       solution"

fun br_iterate ::
  "nat \<Rightarrow> f64 \<Rightarrow> f64 list \<Rightarrow> CSRMatrix \<Rightarrow> nat \<Rightarrow> nat \<Rightarrow> f64 list \<Rightarrow> error + f64 list" where
  "br_iterate 0 tau y x n p solution = Inr solution"
| "br_iterate (Suc k) tau y x n p solution =
     ebind (br_residuals y x solution n p) (\<lambda>residuals.
     ebind (br_gradients tau x residuals n p) (\<lambda>(gradients, maxGrad).
       if flt maxGrad tolerance then Inr solution
       else ebind (descend solution gradients p) (br_iterate k tau y x n p)))"

definition solveBarrodaleRoberts :: "RQFit \<Rightarrow> f64 list \<Rightarrow> CSRMatrix \<Rightarrow> error + f64 list" where
  "solveBarrodaleRoberts fit y x =
     (let n = length y; p = Cols x
      in br_iterate maxIter (RQFit.Tau fit) y x n p (replicate p (Fin 0)))"

definition rq_fitted :: "f64 list list \<Rightarrow> f64 list \<Rightarrow> nat \<Rightarrow> nat \<Rightarrow> error + f64" where
  "rq_fitted x coef p i =
     for_each [0..<p]
       (\<lambda>j fitted. ebind (idx2 x i j) (\<lambda>v. ebind (idx coef j) (\<lambda>c.
          Inr (fadd fitted (fmul v c)))))
       (Fin 0)"

definition RQ :: "f64 list \<Rightarrow> f64 list list \<Rightarrow> f64 \<Rightarrow> error + RQFit" where
  "RQ y x tau =
     (if length y = 0 \<or> length x = 0 then Inl EmptyInput
      else let n = length y; p = length (hd x)
      in if n \<noteq> length x then Inl DimensionMismatch
      else if fle tau (Fin 0) \<or> fge tau (Fin 1) then Inl InvalidTau
      else let fit = \<lparr>RQFit.Coefficients = [], RQFit.Residuals = [], RQFit.Fitted = [],
                       RQFit.Tau = tau, RQFit.N = n, RQFit.P = p,
                       RQFit.Method = ''br'', RQFit.Formula = ''''\<rparr>;
               xMat = NewCSRMatrix x
      in ebind (solveBarrodaleRoberts fit y xMat) (\<lambda>coef.
         for_each [0..<n]
           (\<lambda>i f. ebind (rq_fitted x coef p i) (\<lambda>fitted. ebind (idx y i) (\<lambda>yi.
              Inr (f\<lparr>RQFit.Fitted := (RQFit.Fitted f)[i := fitted],
                     RQFit.Residuals := (RQFit.Residuals f)[i := fsub yi fitted]\<rparr>))))
           (fit\<lparr>RQFit.Coefficients := coef, RQFit.Fitted := replicate n (Fin 0),
                RQFit.Residuals := replicate n (Fin 0)\<rparr>)))"

definition RQFit_Predict :: "RQFit \<Rightarrow> f64 list list \<Rightarrow> error + f64 list" where
  "RQFit_Predict fit newX =
     (if length newX = 0 then Inl EmptyInput
      else if length (hd newX) \<noteq> RQFit.P fit then Inl DimensionMismatch
      else let n = length newX
      in for_each [0..<n]
           (\<lambda>i predictions.
              ebind (rq_fitted newX (RQFit.Coefficients fit) (RQFit.P fit) i) (\<lambda>pred.
              Inr (predictions[i := pred])))
           (replicate n (Fin 0)))"

section \<open>The non-linear fit\<close>

record NonLinearModel =
  F :: "f64 list \<Rightarrow> f64 list \<Rightarrow> f64"
  Gradient :: "f64 list \<Rightarrow> f64 list \<Rightarrow> f64 list"

record NLRQFit =
  Coefficients :: "f64 list"
  Residuals :: "f64 list"
  Fitted :: "f64 list"
  Tau :: f64
  N :: nat
  P :: nat
  Model :: NonLinearModel
  Formula :: string

definition ip_eval ::
  "NonLinearModel \<Rightarrow> f64 list \<Rightarrow> f64 list list \<Rightarrow> f64 list \<Rightarrow> nat
     \<Rightarrow> error + f64 list \<times> f64 list list" where
  "ip_eval model y x beta n =
     for_each [0..<n]
       (\<lambda>i (residuals, gradients). ebind (idx x i) (\<lambda>xi.
          let predicted = NonLinearModel.F model beta xi
          in ebind (idx y i) (\<lambda>yi.
             Inr (residuals[i := fsub yi predicted],
                  gradients[i := NonLinearModel.Gradient model beta xi]))))
       (replicate n (Fin 0), replicate n [])"

definition ip_objGrad ::
  "f64 \<Rightarrow> f64 list \<Rightarrow> f64 list list \<Rightarrow> nat \<Rightarrow> nat \<Rightarrow> error + f64 list" where
  "ip_objGrad tau residuals gradients n p =
     for_each [0..<p]
       (\<lambda>j. for_each [0..<n]
          (\<lambda>i objGrad. ebind (idx residuals i) (\<lambda>r.
             if fgt r (Fin 0)
             then ebind (idx objGrad j) (\<lambda>g. ebind (idx2 gradients i j) (\<lambda>d.
                    Inr (objGrad[j := fadd g (fmul d (fsub tau (Fin 1)))])))
             else ebind (idx objGrad j) (\<lambda>g. ebind (idx2 gradients i j) (\<lambda>d.
                    Inr (objGrad[j := fadd g (fmul d tau)]))))))
       (replicate p (Fin 0))"

definition ip_maxGrad :: "f64 list \<Rightarrow> nat \<Rightarrow> error + f64" where
  "ip_maxGrad objGrad p =
     for_each [0..<p]
       (\<lambda>j maxGrad. ebind (idx objGrad j) (\<lambda>g. Inr (Max64 maxGrad (Abs g))))
       (Fin 0)"

fun ip_iterate ::
  "nat \<Rightarrow> NonLinearModel \<Rightarrow> f64 \<Rightarrow> f64 list \<Rightarrow> f64 list list \<Rightarrow> nat \<Rightarrow> nat \<Rightarrow> f64
     \<Rightarrow> f64 list \<Rightarrow> f64 \<Rightarrow> error + f64 list" where
  "ip_iterate 0 model tau y x n p mu beta t = Inr beta"
| "ip_iterate (Suc k) model tau y x n p mu beta t =
     ebind (ip_eval model y x beta n) (\<lambda>(residuals, gradients).
     ebind (ip_objGrad tau residuals gradients n p) (\<lambda>objGrad.
     ebind (ip_maxGrad objGrad p) (\<lambda>maxGrad.
       if flt maxGrad tolerance then Inr beta
       else ebind (descend beta objGrad p) (\<lambda>beta'.
              ip_iterate k model tau y x n p mu beta' (fmul t mu)))))"

definition solveInteriorPoint ::
  "NLRQFit \<Rightarrow> f64 list \<Rightarrow> f64 list list \<Rightarrow> f64 list \<Rightarrow> error + f64 list" where
  "solveInteriorPoint fit y x beta0 =
     (let n = length y; p = length beta0; t = Fin 1; mu = Fin 10;
          beta = copy (replicate p (Fin 0)) beta0
      in ip_iterate maxIter (NLRQFit.Model fit) (NLRQFit.Tau fit) y x n p mu beta t)"

definition NLRQ ::
  "f64 list \<Rightarrow> f64 list list \<Rightarrow> NonLinearModel \<Rightarrow> f64 list \<Rightarrow> f64 \<Rightarrow> error + NLRQFit" where
  "NLRQ y x model beta0 tau =
     (if length y = 0 \<or> length x = 0 then Inl EmptyInput
      else let n = length y; p = length beta0
      in if n \<noteq> length x then Inl DimensionMismatch
      else if fle tau (Fin 0) \<or> fge tau (Fin 1) then Inl InvalidTau
      else let fit = \<lparr>NLRQFit.Coefficients = [], NLRQFit.Residuals = [], NLRQFit.Fitted = [],
                       NLRQFit.Tau = tau, NLRQFit.N = n, NLRQFit.P = p,
                       NLRQFit.Model = model, NLRQFit.Formula = ''''\<rparr>
      in ebind (solveInteriorPoint fit y x beta0) (\<lambda>coef.
         for_each [0..<n]
           (\<lambda>i f. ebind (idx x i) (\<lambda>xi.
              let fitted = NonLinearModel.F model coef xi
              in ebind (idx y i) (\<lambda>yi.
                 Inr (f\<lparr>NLRQFit.Fitted := (NLRQFit.Fitted f)[i := fitted],
                        NLRQFit.Residuals := (NLRQFit.Residuals f)[i := fsub yi fitted]\<rparr>))))
           (fit\<lparr>NLRQFit.Coefficients := coef, NLRQFit.Fitted := replicate n (Fin 0),
                NLRQFit.Residuals := replicate n (Fin 0)\<rparr>)))"


section \<open>Fits for several quantile levels\<close>

record MultiRQFit =
  Fits :: "f64 \<Rightarrow> RQFit option"
  Taus :: "f64 list"
  N :: nat
  P :: nat
  Method :: string
  Formula :: string

record MultiNLRQFit =
  Fits :: "f64 \<Rightarrow> NLRQFit option"
  Taus :: "f64 list"
  N :: nat
  P :: nat
  Model :: NonLinearModel
  Formula :: string

definition RQProcess :: "f64 list \<Rightarrow> f64 list list \<Rightarrow> f64 list \<Rightarrow> error + MultiRQFit" where
  "RQProcess y x taus =
     (if length taus = 0 then Inl EmptyTauSet
      else let sortedTaus = Float64s (copy (replicate (length taus) (Fin 0)) taus)
      in ebind (for_each sortedTaus
                  (\<lambda>tau u. if fle tau (Fin 0) \<or> fge tau (Fin 1) then Inl InvalidTau else Inr u) ())
           (\<lambda>u.
         ebind (for_each sortedTaus
                  (\<lambda>tau (fits, firstFit).
                     case RQ y x tau of
                       Inl (Panic k) \<Rightarrow> Inl (Panic k)
                     | Inl e \<Rightarrow> Inl (FitFailed tau e)
                     | Inr fit \<Rightarrow>
                         Inr (store64 fits tau fit,
                              if firstFit = None then Some fit else firstFit))
                  (Map.empty, None))
           (\<lambda>(fits, firstFit).
              case firstFit of
                None \<Rightarrow> Inl (Panic NilDereference)
              | Some first \<Rightarrow>
                  Inr \<lparr>MultiRQFit.Fits = fits, MultiRQFit.Taus = sortedTaus,
                       MultiRQFit.N = RQFit.N first, MultiRQFit.P = RQFit.P first,
                       MultiRQFit.Method = ''br'',
                       MultiRQFit.Formula = RQFit.Formula first\<rparr>)))"

definition NLRQProcess ::
  "f64 list \<Rightarrow> f64 list list \<Rightarrow> NonLinearModel \<Rightarrow> f64 list \<Rightarrow> f64 list
     \<Rightarrow> error + MultiNLRQFit" where
  "NLRQProcess y x model beta0 taus =
     (if length taus = 0 then Inl EmptyTauSet
      else let sortedTaus = Float64s (copy (replicate (length taus) (Fin 0)) taus)
      in ebind (for_each sortedTaus
                  (\<lambda>tau u. if fle tau (Fin 0) \<or> fge tau (Fin 1) then Inl InvalidTau else Inr u) ())
           (\<lambda>u.
         ebind (for_each sortedTaus
                  (\<lambda>tau (fits, firstFit).
                     case NLRQ y x model beta0 tau of
                       Inl (Panic k) \<Rightarrow> Inl (Panic k)
                     | Inl e \<Rightarrow> Inl (FitFailed tau e)
                     | Inr fit \<Rightarrow>
                         Inr (store64 fits tau fit,
                              if firstFit = None then Some fit else firstFit))
                  (Map.empty, None))
           (\<lambda>(fits, firstFit).
              case firstFit of
                None \<Rightarrow> Inl (Panic NilDereference)
              | Some first \<Rightarrow>
                  Inr \<lparr>MultiNLRQFit.Fits = fits, MultiNLRQFit.Taus = sortedTaus,
                       MultiNLRQFit.N = NLRQFit.N first, MultiNLRQFit.P = NLRQFit.P first,
                       MultiNLRQFit.Model = model,
                       MultiNLRQFit.Formula = NLRQFit.Formula first\<rparr>)))"

section \<open>Diagnostics\<close>

record Stats =
  Min_v :: f64
  Max_v :: f64
  Median :: f64
  Mean :: f64
  StdDev :: f64

record Diagnostics =
  PseudoRSquared :: f64
  ResidualStats :: "f64 \<Rightarrow> Stats option"
  CrossingMatrix :: "int list list"

definition computeStats :: "f64 list \<Rightarrow> Stats" where
  "computeStats data =
     (let n = length data
      in if n = 0
         then \<lparr>Min_v = Fin 0, Max_v = Fin 0, Median = Fin 0, Mean = Fin 0, StdDev = Fin 0\<rparr>
         else let sorted = Float64s (copy (replicate n (Fin 0)) data);
                  (sum, sumSq) =
                     foldl (\<lambda>(sum, sumSq) v. (fadd sum v, fadd sumSq (fmul v v)))
                       (Fin 0, Fin 0) data;
                  mean = fdiv sum (float64_of_int (int n));
                  variance = fsub (fdiv sumSq (float64_of_int (int n))) (fmul mean mean)
              in \<lparr>Min_v = sorted ! 0, Max_v = sorted ! (n - 1), Median = sorted ! (n div 2),
                  Mean = mean, StdDev = Sqrt variance\<rparr>)"

definition countCrossings :: "f64 list \<Rightarrow> f64 list \<Rightarrow> int" where
  "countCrossings fit1 fit2 =
     (if length fit1 \<noteq> length fit2 then 0
      else foldl
             (\<lambda>crossings i.
                if (fle (fit1 ! (i - 1)) (fit2 ! (i - 1)) \<and> fgt (fit1 ! i) (fit2 ! i)) \<or>
                   (fge (fit1 ! (i - 1)) (fit2 ! (i - 1)) \<and> flt (fit1 ! i) (fit2 ! i))
                then crossings + 1 else crossings)
             0 [1..<length fit1])"

definition median :: "f64 list \<Rightarrow> f64" where
  "median data =
     (if length data = 0 then Fin 0
      else let sorted = Float64s (copy (replicate (length data) (Fin 0)) data)
           in sorted ! (length sorted div 2))"

definition computePseudoRSquared :: "RQFit \<Rightarrow> error + f64" where
  "computePseudoRSquared fit =
     (let median = median (RQFit.Residuals fit)
      in ebind (for_each [0..<length (RQFit.Residuals fit)]
                  (\<lambda>i (sumRes, sumTot).
                     let res = RQFit.Residuals fit ! i
                     in ebind (idx (RQFit.Fitted fit) i) (\<lambda>fitted.
                        Inr (fadd sumRes (Abs res), fadd sumTot (Abs (fsub fitted median)))))
                  (Fin 0, Fin 0))
           (\<lambda>(sumRes, sumTot).
              if feq sumTot (Fin 0) then Inr (Fin 0)
              else Inr (fsub (Fin 1) (fdiv sumRes sumTot))))"

definition cd_crossing :: "MultiRQFit \<Rightarrow> nat \<Rightarrow> RQFit \<Rightarrow> nat \<Rightarrow> Diagnostics \<Rightarrow> error + Diagnostics" where
  "cd_crossing m i fit1 j diag =
     (let tau2 = MultiRQFit.Taus m ! j
      in if j \<le> i then Inr diag
         else case lookup64 (MultiRQFit.Fits m) tau2 of
                None \<Rightarrow> Inl (Panic NilDereference)
              | Some fit2 \<Rightarrow>
                  let crossings = countCrossings (RQFit.Fitted fit1) (RQFit.Fitted fit2);
                      cm = CrossingMatrix diag;
                      cm = cm[i := (cm ! i)[j := crossings]];
                      cm = cm[j := (cm ! j)[i := crossings]]
                  in Inr (diag\<lparr>CrossingMatrix := cm\<rparr>))"

definition cd_tau :: "MultiRQFit \<Rightarrow> nat \<Rightarrow> Diagnostics \<Rightarrow> error + Diagnostics" where
  "cd_tau m i diag =
     (let tau1 = MultiRQFit.Taus m ! i
      in case lookup64 (MultiRQFit.Fits m) tau1 of
           None \<Rightarrow> Inl (Panic NilDereference)
         | Some fit1 \<Rightarrow>
             let stats = computeStats (RQFit.Residuals fit1)
             in for_each [0..<length (MultiRQFit.Taus m)] (cd_crossing m i fit1)
                  (diag\<lparr>ResidualStats := store64 (ResidualStats diag) tau1 stats\<rparr>))"

definition ComputeDiagnostics :: "MultiRQFit \<Rightarrow> error + Diagnostics" where
  "ComputeDiagnostics m =
     (let k = length (MultiRQFit.Taus m);
          diag = \<lparr>PseudoRSquared = Fin 0, ResidualStats = Map.empty,
                   CrossingMatrix = replicate k (replicate k 0)\<rparr>
      in ebind (for_each [0..<k] (cd_tau m) diag)
           (\<lambda>diag.
              case lookup64 (MultiRQFit.Fits m) (Fin (1 / 2)) of
                None \<Rightarrow> Inr diag
              | Some medianFit \<Rightarrow>
                  ebind (computePseudoRSquared medianFit) (\<lambda>r.
                    Inr (diag\<lparr>PseudoRSquared := r\<rparr>))))"

section \<open>The algorithm in the words of the specification\<close>

definition dot :: "f64 list \<Rightarrow> f64 list \<Rightarrow> nat \<Rightarrow> f64" where
  "dot row coef p = foldl (\<lambda>acc j. fadd acc (fmul (row ! j) (coef ! j))) (Fin 0) [0..<p]"

definition check_weight :: "f64 \<Rightarrow> f64 \<Rightarrow> f64" where
  "check_weight tau r = (if fgt r (Fin 0) then fsub tau (Fin 1) else tau)"

definition subgradient :: "f64 \<Rightarrow> f64 list \<Rightarrow> (nat \<Rightarrow> f64) \<Rightarrow> nat \<Rightarrow> f64" where
  "subgradient tau residuals d n =
     foldl (\<lambda>g i. fadd g (fmul (d i) (check_weight tau (residuals ! i)))) (Fin 0) [0..<n]"

definition max_abs :: "f64 list \<Rightarrow> f64" where
  "max_abs g = foldl (\<lambda>m v. Max64 m (Abs v)) (Fin 0) g"

definition step_back :: "f64 list \<Rightarrow> f64 list \<Rightarrow> f64 list" where
  "step_back beta g = map (\<lambda>i. fsub (beta ! i) (fmul learningRate (g ! i))) [0..<length beta]"

fun descend_until :: "nat \<Rightarrow> (f64 list \<Rightarrow> f64 list) \<Rightarrow> f64 list \<Rightarrow> f64 list" where
  "descend_until 0 grad beta = beta"
| "descend_until (Suc k) grad beta =
     (if flt (max_abs (grad beta)) tolerance then beta
      else descend_until k grad (step_back beta (grad beta)))"

definition lin_residuals :: "f64 list \<Rightarrow> f64 list list \<Rightarrow> f64 list \<Rightarrow> f64 list" where
  "lin_residuals y x beta =
     map (\<lambda>i. fsub (y ! i) (dot (x ! i) beta (length beta))) [0..<length y]"

definition lin_gradient :: "f64 \<Rightarrow> f64 list \<Rightarrow> f64 list list \<Rightarrow> f64 list \<Rightarrow> f64 list" where
  "lin_gradient tau y x beta =
     map (\<lambda>j. subgradient tau (lin_residuals y x beta) (\<lambda>i. x ! i ! j) (length y))
       [0..<length beta]"

definition rows_ok :: "'a list list \<Rightarrow> nat \<Rightarrow> bool" where
  "rows_ok x p = list_all (\<lambda>row. p \<le> length row) x"

definition rq_fit_of :: "f64 list \<Rightarrow> f64 list list \<Rightarrow> f64 \<Rightarrow> f64 list \<Rightarrow> RQFit" where
  "rq_fit_of y x tau coef =
     (let p = length (hd x);
          fitted = map (\<lambda>i. dot (x ! i) coef p) [0..<length y]
      in \<lparr>RQFit.Coefficients = coef,
          RQFit.Residuals = map (\<lambda>i. fsub (y ! i) (fitted ! i)) [0..<length y],
          RQFit.Fitted = fitted, RQFit.Tau = tau, RQFit.N = length y, RQFit.P = p,
          RQFit.Method = ''br'', RQFit.Formula = []\<rparr>)"

definition rq_result :: "f64 list \<Rightarrow> f64 list list \<Rightarrow> f64 \<Rightarrow> RQFit" where
  "rq_result y x tau =
     rq_fit_of y x tau
       (descend_until maxIter (lin_gradient tau y x) (replicate (length (hd x)) (Fin 0)))"

definition nl_residuals ::
  "NonLinearModel \<Rightarrow> f64 list \<Rightarrow> f64 list list \<Rightarrow> f64 list \<Rightarrow> f64 list" where
  "nl_residuals model y x beta =
     map (\<lambda>i. fsub (y ! i) (NonLinearModel.F model beta (x ! i))) [0..<length y]"

definition nl_gradient ::
  "NonLinearModel \<Rightarrow> f64 \<Rightarrow> f64 list \<Rightarrow> f64 list list \<Rightarrow> f64 list \<Rightarrow> f64 list" where
  "nl_gradient model tau y x beta =
     map (\<lambda>j. subgradient tau (nl_residuals model y x beta)
                 (\<lambda>i. NonLinearModel.Gradient model beta (x ! i) ! j) (length y))
       [0..<length beta]"

definition grads_ok :: "NonLinearModel \<Rightarrow> f64 list list \<Rightarrow> nat \<Rightarrow> bool" where
  "grads_ok model x p =
     (\<forall>beta. length beta = p \<longrightarrow>
        (\<forall>xi\<in>set x. p \<le> length (NonLinearModel.Gradient model beta xi)))"

definition nlrq_fit_of ::
  "f64 list \<Rightarrow> f64 list list \<Rightarrow> NonLinearModel \<Rightarrow> f64 list \<Rightarrow> f64 \<Rightarrow> f64 list \<Rightarrow> NLRQFit" where
  "nlrq_fit_of y x model beta0 tau coef =
     (let fitted = map (\<lambda>i. NonLinearModel.F model coef (x ! i)) [0..<length y]
      in \<lparr>NLRQFit.Coefficients = coef,
          NLRQFit.Residuals = map (\<lambda>i. fsub (y ! i) (fitted ! i)) [0..<length y],
          NLRQFit.Fitted = fitted, NLRQFit.Tau = tau, NLRQFit.N = length y,
          NLRQFit.P = length beta0, NLRQFit.Model = model, NLRQFit.Formula = []\<rparr>)"

definition nlrq_result ::
  "f64 list \<Rightarrow> f64 list list \<Rightarrow> NonLinearModel \<Rightarrow> f64 list \<Rightarrow> f64 \<Rightarrow> NLRQFit" where
  "nlrq_result y x model beta0 tau =
     nlrq_fit_of y x model beta0 tau (descend_until maxIter (nl_gradient model tau y x) beta0)"

fun plain_iterate ::
  "nat \<Rightarrow> NonLinearModel \<Rightarrow> f64 \<Rightarrow> f64 list \<Rightarrow> f64 list list \<Rightarrow> nat \<Rightarrow> nat
     \<Rightarrow> f64 list \<Rightarrow> error + f64 list" where
  "plain_iterate 0 model tau y x n p beta = Inr beta"
| "plain_iterate (Suc k) model tau y x n p beta =
     ebind (ip_eval model y x beta n) (\<lambda>(residuals, gradients).
     ebind (ip_objGrad tau residuals gradients n p) (\<lambda>objGrad.
     ebind (ip_maxGrad objGrad p) (\<lambda>maxGrad.
       if flt maxGrad tolerance then Inr beta
       else ebind (descend beta objGrad p) (plain_iterate k model tau y x n p))))"

definition solve_without_barrier ::
  "NLRQFit \<Rightarrow> f64 list \<Rightarrow> f64 list list \<Rightarrow> f64 list \<Rightarrow> error + f64 list" where
  "solve_without_barrier fit y x beta0 =
     (let n = length y; p = length beta0;
          beta = copy (replicate p (Fin 0)) beta0
      in plain_iterate maxIter (NLRQFit.Model fit) (NLRQFit.Tau fit) y x n p beta)"

definition valid_tau :: "f64 \<Rightarrow> bool" where
  "valid_tau t = (case t of Fin r \<Rightarrow> 0 < r \<and> r < 1 | _ \<Rightarrow> False)"

definition outside_unit :: "f64 \<Rightarrow> bool" where
  "outside_unit t = (case t of Fin r \<Rightarrow> r \<le> 0 \<or> 1 \<le> r | PInf \<Rightarrow> True | NInf \<Rightarrow> True | NaN \<Rightarrow> False)"

definition le64 :: "f64 \<Rightarrow> f64 \<Rightarrow> bool" where
  "le64 a b = (\<not> float64_less b a)"

definition collect_fits ::
  "(f64 \<Rightarrow> 'fit) \<Rightarrow> f64 list \<Rightarrow> (f64 \<Rightarrow> 'fit option) \<times> 'fit option" where
  "collect_fits g ts =
     ((\<lambda>t. if t \<in> set ts \<and> t \<noteq> NaN then Some (g t) else None),
      (case ts of [] \<Rightarrow> None | t # _ \<Rightarrow> Some (g t)))"

definition multi_rq_of :: "(f64 \<Rightarrow> RQFit) \<Rightarrow> f64 list \<Rightarrow> MultiRQFit" where
  "multi_rq_of g taus =
     (let sortedTaus = Float64s taus; first = g (hd sortedTaus)
      in \<lparr>MultiRQFit.Fits = fst (collect_fits g sortedTaus), MultiRQFit.Taus = sortedTaus,
          MultiRQFit.N = RQFit.N first, MultiRQFit.P = RQFit.P first,
          MultiRQFit.Method = ''br'', MultiRQFit.Formula = RQFit.Formula first\<rparr>)"

definition multi_nlrq_of ::
  "(f64 \<Rightarrow> NLRQFit) \<Rightarrow> NonLinearModel \<Rightarrow> f64 list \<Rightarrow> MultiNLRQFit" where
  "multi_nlrq_of g model taus =
     (let sortedTaus = Float64s taus; first = g (hd sortedTaus)
      in \<lparr>MultiNLRQFit.Fits = fst (collect_fits g sortedTaus), MultiNLRQFit.Taus = sortedTaus,
          MultiNLRQFit.N = NLRQFit.N first, MultiNLRQFit.P = NLRQFit.P first,
          MultiNLRQFit.Model = model, MultiNLRQFit.Formula = NLRQFit.Formula first\<rparr>)"


section \<open>Example inputs\<close>



definition line_fit :: RQFit where
  "line_fit =
     \<lparr>RQFit.Coefficients = [Fin 1, Fin 2], RQFit.Residuals = [Fin 0], RQFit.Fitted = [Fin 3],
      RQFit.Tau = Fin (1 / 2), RQFit.N = 1, RQFit.P = 2, RQFit.Method = ''br'',
      RQFit.Formula = []\<rparr>"

definition intercept_model :: NonLinearModel where
  "intercept_model =
     \<lparr>NonLinearModel.F = (\<lambda>beta x. beta ! 0),
      NonLinearModel.Gradient = (\<lambda>beta x. [Fin 1])\<rparr>"

definition tiny :: real where
  "tiny = 1 / 2 ^ 70"

definition tiny_fit :: NLRQFit where
  "tiny_fit =
     \<lparr>NLRQFit.Coefficients = [Fin 1], NLRQFit.Residuals = [Fin 1, Fin (- 1)],
      NLRQFit.Fitted = [Fin 1, Fin 1], NLRQFit.Tau = Fin (1 / 2), NLRQFit.N = 2,
      NLRQFit.P = 1, NLRQFit.Model = intercept_model, NLRQFit.Formula = []\<rparr>"

definition flat_fit :: RQFit where
  "flat_fit =
     \<lparr>RQFit.Coefficients = [Fin 0], RQFit.Residuals = [Fin 1], RQFit.Fitted = [Fin 0],
      RQFit.Tau = Fin (1 / 2), RQFit.N = 1, RQFit.P = 1, RQFit.Method = ''br'',
      RQFit.Formula = []\<rparr>"


definition flat_fit_at :: "real \<Rightarrow> RQFit" where
  "flat_fit_at r =
     \<lparr>RQFit.Coefficients = [Fin 0], RQFit.Residuals = [Fin 1], RQFit.Fitted = [Fin 0],
      RQFit.Tau = Fin r, RQFit.N = 1, RQFit.P = 1, RQFit.Method = ''br'',
      RQFit.Formula = []\<rparr>"

definition quartile_multi :: MultiRQFit where
  "quartile_multi =
     \<lparr>MultiRQFit.Fits = [Fin (1 / 4) \<mapsto> flat_fit_at (1 / 4), Fin (3 / 4) \<mapsto> flat_fit_at (3 / 4)],
      MultiRQFit.Taus = [Fin (1 / 4), Fin (3 / 4)], MultiRQFit.N = 1, MultiRQFit.P = 1,
      MultiRQFit.Method = ''br'', MultiRQFit.Formula = []\<rparr>"

definition twice_multi :: MultiRQFit where
  "twice_multi =
     \<lparr>MultiRQFit.Fits = [Fin (1 / 2) \<mapsto> flat_fit_at (1 / 2)],
      MultiRQFit.Taus = [Fin (1 / 2), Fin (1 / 2)], MultiRQFit.N = 1, MultiRQFit.P = 1,
      MultiRQFit.Method = ''br'', MultiRQFit.Formula = []\<rparr>"

definition tiny_multi :: MultiNLRQFit where
  "tiny_multi =
     \<lparr>MultiNLRQFit.Fits = [Fin (1 / 2) \<mapsto> tiny_fit],
      MultiNLRQFit.Taus = [Fin (1 / 2)], MultiNLRQFit.N = 2, MultiNLRQFit.P = 1,
      MultiNLRQFit.Model = intercept_model, MultiNLRQFit.Formula = []\<rparr>"

section \<open>Rounding to binary64\<close>

lemma expo_eq_iff:
  assumes "x \<noteq> 0"
  shows "expo x = e \<longleftrightarrow> 2 powi e \<le> \<bar>x\<bar> \<and> \<bar>x\<bar> < 2 powi (e + 1)"
proof -
  have "0 < \<bar>x\<bar>" using assms by simp
  then have "\<lfloor>log 2 \<bar>x\<bar>\<rfloor> = e \<longleftrightarrow> 2 powr (real_of_int e) \<le> \<bar>x\<bar> \<and> \<bar>x\<bar> < 2 powr (real_of_int e + 1)"
    using floor_log_eq_powr_iff [of "\<bar>x\<bar>" 2 e] by simp
  moreover have "(2::real) powr (real_of_int e) = 2 powi e"
    by (simp add: powr_real_of_int')
  moreover have "(2::real) powr (real_of_int e + 1) = 2 powi (e + 1)"
    using powr_real_of_int' [of 2 "e + 1"] by simp
  ultimately show ?thesis by (simp add: expo_def)
qed

lemma expo_eqI: "2 powi e \<le> \<bar>x\<bar> \<Longrightarrow> \<bar>x\<bar> < 2 powi (e + 1) \<Longrightarrow> expo x = e"
proof -
  assume a: "2 powi e \<le> \<bar>x\<bar>" and b: "\<bar>x\<bar> < 2 powi (e + 1)"
  have "(0::real) < 2 powi e" by simp
  with a have "0 < \<bar>x\<bar>" by linarith
  then have "x \<noteq> 0" by simp
  then show ?thesis using a b by (simp add: expo_eq_iff)
qed

lemma expo_code [code]:
  "expo x = (if 1 \<le> \<bar>x\<bar> then bitlen \<lfloor>\<bar>x\<bar>\<rfloor> - 1 else - bitlen (\<lceil>1 / \<bar>x\<bar>\<rceil> - 1))"
proof (cases "1 \<le> \<bar>x\<bar>")
  case True
  define n where "n = \<lfloor>\<bar>x\<bar>\<rfloor>"
  have n: "0 < n" using True by (simp add: n_def)
  define e where "e = bitlen n - 1"
  have e0: "0 \<le> e" using n by (simp add: e_def bitlen_alt_def)
  from bitlen_bounds [OF n] have lo: "2 ^ nat e \<le> n" and hi: "n < 2 ^ nat (bitlen n)"
    by (simp_all add: e_def)
  have be: "nat (bitlen n) = Suc (nat e)" using e0 by (simp add: e_def)
  have "real_of_int (2 ^ nat e) \<le> real_of_int n" using lo by (simp only: of_int_le_iff)
  also have "real_of_int n \<le> \<bar>x\<bar>" by (simp add: n_def)
  finally have A: "2 powi e \<le> \<bar>x\<bar>" using e0 by (simp add: power_int_def)
  have "n + 1 \<le> 2 ^ Suc (nat e)" using hi be by simp
  then have "real_of_int (n + 1) \<le> real_of_int (2 ^ Suc (nat e))" by (simp only: of_int_le_iff)
  moreover have "\<bar>x\<bar> < real_of_int (n + 1)" by (simp add: n_def)
  ultimately have "\<bar>x\<bar> < 2 ^ Suc (nat e)" by simp
  moreover have "(2::real) powi (e + 1) = 2 ^ Suc (nat e)"
    using e0 by (simp add: power_int_def nat_add_distrib)
  ultimately have B: "\<bar>x\<bar> < 2 powi (e + 1)" by simp
  from A B have "expo x = e" by (rule expo_eqI)
  then show ?thesis using True by (simp add: e_def n_def)
next
  case False
  show ?thesis
  proof (cases "x = 0")
    case True
    then show ?thesis by (simp add: expo_def log_def bitlen_eq_zero_iff)
  next
    case x: False
    then have pos: "0 < \<bar>x\<bar>" and lt: "\<bar>x\<bar> < 1" using False by simp_all
    define c where "c = \<lceil>1 / \<bar>x\<bar>\<rceil>"
    have inv: "1 < 1 / \<bar>x\<bar>" using pos lt by simp
    then have c2: "2 \<le> c" unfolding c_def by linarith
    define k where "k = bitlen (c - 1)"
    have c1: "0 < c - 1" using c2 by simp
    have k1: "1 \<le> k" using c1 by (simp add: k_def bitlen_alt_def)
    from bitlen_bounds [OF c1] have lo: "2 ^ nat (k - 1) \<le> c - 1" and hi: "c - 1 < 2 ^ nat k"
      by (simp_all add: k_def)
    have up: "1 / \<bar>x\<bar> \<le> real_of_int c" by (simp add: c_def)
    have dn: "real_of_int (c - 1) < 1 / \<bar>x\<bar>" unfolding c_def by linarith
    have "c \<le> 2 ^ nat k" using hi by simp
    then have "real_of_int c \<le> real_of_int (2 ^ nat k)" by (simp only: of_int_le_iff)
    then have "real_of_int c \<le> 2 ^ nat k" by simp
    with up have "1 / \<bar>x\<bar> \<le> 2 ^ nat k" by linarith
    then have "1 \<le> 2 ^ nat k * \<bar>x\<bar>" using pos by (simp add: field_simps)
    then have "1 / 2 ^ nat k \<le> \<bar>x\<bar>" by (simp add: field_simps)
    moreover have "(2::real) powi (- k) = 1 / 2 ^ nat k"
      using k1 by (simp add: power_int_def field_simps)
    ultimately have A: "2 powi (- k) \<le> \<bar>x\<bar>" by simp
    have "real_of_int (2 ^ nat (k - 1)) \<le> real_of_int (c - 1)" using lo by (simp only: of_int_le_iff)
    with dn have "2 ^ nat (k - 1) < 1 / \<bar>x\<bar>" by simp
    then have "2 ^ nat (k - 1) * \<bar>x\<bar> < 1" using pos by (simp add: field_simps)
    then have "\<bar>x\<bar> < 1 / 2 ^ nat (k - 1)" by (simp add: field_simps)
    moreover have "(2::real) powi (- k + 1) = 1 / 2 ^ nat (k - 1)"
    proof (cases "k = 1")
      case True
      then show ?thesis by simp
    next
      case False
      then have "- k + 1 < 0" using k1 by simp
      moreover have "nat (- (- k + 1)) = nat (k - 1)" by simp
      ultimately show ?thesis by (simp add: power_int_def field_simps)
    qed
    ultimately have B: "\<bar>x\<bar> < 2 powi (- k + 1)" by simp
    from A B have "expo x = - k" by (rule expo_eqI)
    then show ?thesis using False by (simp add: k_def c_def)
  qed
qed

lemma round64_eval:
  assumes "2 powi e \<le> \<bar>x\<bar>" and "\<bar>x\<bar> < 2 powi (e + 1)"
    and "e' = max e (- 1022) - 52"
    and "round_even (x / 2 powi e') = m"
    and "r = of_int m * 2 powi e'"
    and "\<bar>r\<bar> < 2 powi 1024"
  shows "round64 x = Fin r"
proof -
  have e: "expo x = e" using assms(1,2) by (rule expo_eqI)
  have "(0::real) < 2 powi e" by simp
  with assms(1) have "0 < \<bar>x\<bar>" by linarith
  then have "x \<noteq> 0" by simp
  then show ?thesis
    using e assms(3-6) by (simp add: round64_def Let_def)
qed

lemma round_even_int: "round_even (of_int k) = k"
  by (simp add: round_even_def)

lemma round64_exact:
  assumes "x = of_int m * 2 powi e" and "\<bar>m\<bar> < 2 ^ 53" and "- 1074 \<le> e"
    and "\<bar>x\<bar> < 2 powi 1024"
  shows "round64 x = Fin x"
proof (cases "x = 0")
  case True
  then show ?thesis by (simp add: round64_def)
next
  case False
  define E where "E = expo x"
  define d where "d = max E (- 1022) - 52"
  have "2 powi E \<le> \<bar>x\<bar>" using False expo_eq_iff [of x E] by (simp add: E_def)
  also have "\<bar>x\<bar> = real_of_int \<bar>m\<bar> * 2 powi e" by (simp add: assms(1) abs_mult)
  also have "\<dots> < 2 ^ 53 * 2 powi e"
  proof -
    have "real_of_int \<bar>m\<bar> < real_of_int (2 ^ 53)" using assms(2) by (simp only: of_int_less_iff)
    then show ?thesis by simp
  qed
  also have "\<dots> = 2 powi (53 + e)" by (simp add: power_int_add)
  finally have "(2::real) powi E < 2 powi (53 + e)" .
  then have "E < 53 + e"
    using power_int_increasing [of "53 + e" E "2::real"] by (cases "E < 53 + e") simp_all
  then have de: "d \<le> e" using assms(3) by (simp add: d_def)
  define k where "k = m * 2 ^ nat (e - d)"
  have "x / 2 powi d = real_of_int m * (2 powi e / 2 powi d)" by (simp add: assms(1))
  also have "(2::real) powi e / 2 powi d = 2 powi (e - d)" by (simp add: power_int_diff)
  also have "(2::real) powi (e - d) = 2 ^ nat (e - d)" using de by (simp add: power_int_def)
  finally have q: "x / 2 powi d = real_of_int k" by (simp add: k_def)
  have r: "real_of_int k * 2 powi d = x"
    using q by (simp add: field_simps)
  show ?thesis
    using False assms(4) r
    by (simp add: round64_def Let_def E_def [symmetric] d_def [symmetric] q round_even_int)
qed

lemma round64_int:
  "\<bar>k\<bar> < 2 ^ 53 \<Longrightarrow> round64 (of_int k) = Fin (of_int k)"
proof -
  assume a: "\<bar>k\<bar> < 2 ^ 53"
  have "real_of_int \<bar>k\<bar> < real_of_int (2 ^ 53)" using a by (simp only: of_int_less_iff)
  also have "\<dots> \<le> 2 powi 1024" by simp
  finally have "\<bar>real_of_int k\<bar> < 2 powi 1024" by simp
  then show ?thesis
    using round64_exact [of "of_int k" k 0] a by simp
qed

declare floor_sqrt.simps [simp del]

lemma floor_sqrt_bounds: "floor_sqrt n * floor_sqrt n \<le> n \<and> n < (floor_sqrt n + 1) * (floor_sqrt n + 1)"
proof (induction n rule: floor_sqrt.induct)
  case (1 n)
  show ?case
  proof (cases "n < 4")
    case True
    then have fs: "floor_sqrt n = (if n = 0 then 0 else 1)"
      by (subst floor_sqrt.simps) simp
    show ?thesis using True by (auto simp: fs)
  next
    case False
    define s where "s = floor_sqrt (n div 4)"
    have ih: "s * s \<le> n div 4 \<and> n div 4 < (s + 1) * (s + 1)"
      using "1.IH" False by (simp add: s_def)
    have lo: "(2 * s) * (2 * s) \<le> n"
    proof -
      have "4 * (s * s) \<le> 4 * (n div 4)" using ih by simp
      also have "\<dots> \<le> n" by simp
      finally show ?thesis by (simp add: algebra_simps)
    qed
    have hi: "n < (2 * s + 2) * (2 * s + 2)"
    proof -
      have "n div 4 + 1 \<le> (s + 1) * (s + 1)" using ih by simp
      then have "4 * (n div 4 + 1) \<le> 4 * ((s + 1) * (s + 1))" by simp
      moreover have "n < 4 * (n div 4 + 1)" by presburger
      ultimately show ?thesis by (simp add: algebra_simps)
    qed
    show ?thesis
      using lo hi False
      by (simp add: floor_sqrt.simps [of n] s_def [symmetric] Let_def not_le)
  qed
qed

lemma floor_sqrt_real:
  assumes "0 \<le> t"
  shows "\<lfloor>sqrt t\<rfloor> = int (floor_sqrt (nat \<lfloor>t\<rfloor>))"
proof -
  define n where "n = nat \<lfloor>t\<rfloor>"
  define g where "g = floor_sqrt n"
  have nt: "real n \<le> t" and tn: "t < real n + 1"
    using assms by (simp_all add: n_def)
  from floor_sqrt_bounds [of n] have lo: "g * g \<le> n" and hi: "n + 1 \<le> (g + 1) * (g + 1)"
    by (simp_all add: g_def)
  have "real (g * g) \<le> real n" using lo by (simp only: of_nat_le_iff)
  with nt have "(real g)\<^sup>2 \<le> t" by (simp add: power2_eq_square)
  then have A: "real g \<le> sqrt t" by (rule real_le_rsqrt)
  have "real (n + 1) \<le> real ((g + 1) * (g + 1))" using hi by (simp only: of_nat_le_iff)
  then have "real n + 1 \<le> (real g + 1) * (real g + 1)" by (simp add: algebra_simps)
  with tn have "t < (real g + 1) * (real g + 1)" by linarith
  then have "t < (real g + 1)\<^sup>2" by (simp add: power2_eq_square)
  then have B: "sqrt t < real g + 1" by (rule real_less_lsqrt [rotated]) simp
  have "\<lfloor>sqrt t\<rfloor> = int g"
    using A B by (intro floor_unique) simp_all
  then show ?thesis by (simp add: g_def n_def)
qed

lemma expo_sqrt:
  assumes "0 < a"
  shows "expo (sqrt a) = expo a div 2"
proof -
  define E where "E = expo a"
  define h where "h = E div 2"
  have a: "2 powi E \<le> a" "a < 2 powi (E + 1)"
    using assms expo_eq_iff [of a E] by (simp_all add: E_def)
  have h: "2 * h \<le> E" "E + 1 \<le> 2 * h + 2" by (simp_all add: h_def)
  have "((2::real) powi h)\<^sup>2 = 2 powi (2 * h)"
    by (simp add: power2_eq_square power_int_add [symmetric])
  also have "\<dots> \<le> 2 powi E" using h(1) by (intro power_int_increasing) simp_all
  finally have "((2::real) powi h)\<^sup>2 \<le> a" using a(1) by linarith
  then have A: "2 powi h \<le> sqrt a" by (rule real_le_rsqrt)
  have "a < 2 powi (2 * h + 2)"
    using a(2) power_int_increasing [OF h(2), of "2::real"] by simp
  also have "(2::real) powi (2 * h + 2) = (2 powi (h + 1))\<^sup>2"
    by (simp add: power2_eq_square power_int_add [symmetric])
  finally have B: "sqrt a < 2 powi (h + 1)" by (intro real_less_lsqrt) simp_all
  have "expo (sqrt a) = h"
    using A B assms by (intro expo_eqI) simp_all
  then show ?thesis by (simp add: h_def E_def)
qed

lemma sqrt_round_correct:
  assumes "0 \<le> a"
  shows "round64 (sqrt a) = sqrt_round a"
proof (cases "a = 0")
  case True
  then show ?thesis by (simp add: round64_def sqrt_round_def)
next
  case False
  then have pos: "0 < a" using assms by simp
  define e where "e = max (expo a div 2) (- 1022)"
  define u :: real where "u = 2 powi (e - 52)"
  define t where "t = a / (u * u)"
  define f where "f = int (floor_sqrt (nat \<lfloor>t\<rfloor>))"
  define hh where "hh = real_of_int f + 1 / 2"
  have u: "0 < u" by (simp add: u_def)
  have t0: "0 \<le> t" using pos u by (simp add: t_def)
  have q: "sqrt a / u = sqrt t"
    using u by (simp add: t_def real_sqrt_divide real_sqrt_mult)
  have fl: "\<lfloor>sqrt t\<rfloor> = f" using t0 by (simp add: f_def floor_sqrt_real)
  have f0: "0 \<le> f" by (simp add: f_def)
  have hh0: "0 \<le> hh" using f0 by (simp add: hh_def)
  have lt: "sqrt t < hh \<longleftrightarrow> t < hh * hh"
  proof -
    have "sqrt t < sqrt (hh * hh) \<longleftrightarrow> t < hh * hh" by (rule real_sqrt_less_iff)
    then show ?thesis using hh0 by simp
  qed
  have gt: "hh < sqrt t \<longleftrightarrow> hh * hh < t"
  proof -
    have "sqrt (hh * hh) < sqrt t \<longleftrightarrow> hh * hh < t" by (rule real_sqrt_less_iff)
    then show ?thesis using hh0 by simp
  qed
  have re: "round_even (sqrt t) =
      (if t < hh * hh then f else if hh * hh < t then f + 1 else if even f then f else f + 1)"
  proof -
    have "sqrt t - real_of_int f < 1 / 2 \<longleftrightarrow> sqrt t < hh" by (auto simp: hh_def)
    moreover have "1 / 2 < sqrt t - real_of_int f \<longleftrightarrow> hh < sqrt t" by (auto simp: hh_def)
    ultimately show ?thesis
      by (simp add: round_even_def fl Let_def lt gt)
  qed
  define m where "m = (if t < hh * hh then f else if hh * hh < t then f + 1
                       else if even f then f else f + 1)"
  have s0: "sqrt a \<noteq> 0" "0 < sqrt a" using pos by simp_all
  have 1: "round64 (sqrt a) =
      (let r = of_int (round_even (sqrt a / u)) * u
       in if 2 powi 1024 \<le> \<bar>r\<bar> then PInf else Fin r)"
    using s0 by (simp add: round64_def Let_def expo_sqrt [OF pos] e_def u_def)
  have 2: "round_even (sqrt a / u) = m"
    by (simp only: q re m_def)
  have 3: "sqrt_round a = (let r = of_int m * u in if 2 powi 1024 \<le> \<bar>r\<bar> then PInf else Fin r)"
    by (simp only: sqrt_round_def Let_def m_def hh_def f_def t_def u_def e_def False if_False)
  show ?thesis
    by (simp only: 1 2 3)
qed

lemma Sqrt_code [code]:
  "Sqrt NaN = NaN"
  "Sqrt PInf = PInf"
  "Sqrt NInf = NaN"
  "Sqrt (Fin a) = (if a < 0 then NaN else sqrt_round a)"
  by (simp_all add: sqrt_round_correct)

lemma round64_0: "round64 0 = Fin 0"
  by (simp add: round64_def)

lemma round64_1: "round64 1 = Fin 1"
  using round64_int [of 1] by simp

lemma round64_numeral:
  "(numeral n :: int) < 2 ^ 53 \<Longrightarrow> round64 (numeral n) = Fin (numeral n)"
  using round64_int [of "numeral n"] by simp

lemma round64_neg_numeral:
  "(numeral n :: int) < 2 ^ 53 \<Longrightarrow> round64 (- numeral n) = Fin (- numeral n)"
  using round64_int [of "- numeral n"] by simp

lemma round64_half: "round64 (1 / 2) = Fin (1 / 2)"
  by (rule round64_exact [where m = 1 and e = "- 1"]) simp_all

lemma round64_neg_half: "round64 (- (1 / 2)) = Fin (- (1 / 2))"
  by (rule round64_exact [where m = "- 1" and e = "- 1"]) simp_all

lemma tolerance_eq: "tolerance = Fin (6044629098073146 / 2 ^ 79)"
  unfolding tolerance_def
  by (rule round64_eval [where e = "- 27" and e' = "- 79" and m = 6044629098073146])
     (simp_all add: round_even_def)

lemma learningRate_eq: "learningRate = Fin (5764607523034235 / 2 ^ 59)"
  unfolding learningRate_def
  by (rule round64_eval [where e = "- 7" and e' = "- 59" and m = 5764607523034235])
     (simp_all add: round_even_def)

lemma zero_below_tolerance: "flt (Fin 0) tolerance"
  by (simp add: tolerance_eq)

section \<open>Loops and checked reads\<close>

lemma ebind_Inl: "ebind (Inl e) k = Inl e"
  by (simp add: ebind_def)

lemma ebind_Inr: "ebind (Inr v) k = k v"
  by (simp add: ebind_def)


lemma idx_out: "\<not> i < length xs \<Longrightarrow> idx xs i = Inl (Panic IndexOutOfRange)"
  by (simp add: idx_def)

lemma idx2_eq:
  "idx2 m i j =
     (if i < length m \<and> j < length (m ! i) then Inr (m ! i ! j)
      else Inl (Panic IndexOutOfRange))"
  by (simp add: idx2_def idx_def ebind_def)

lemma for_each_guarded:
  assumes "Inv s"
    and "\<And>i s. i \<in> set is \<Longrightarrow> Inv s \<Longrightarrow> body i s = (if ok i then Inr (f i s) else Inl e)"
    and "\<And>i s. i \<in> set is \<Longrightarrow> Inv s \<Longrightarrow> Inv (f i s)"
  shows "for_each is body s =
           (if \<forall>i\<in>set is. ok i then Inr (foldl (\<lambda>s i. f i s) s is) else Inl e)"
  using assms
proof (induction "is" arbitrary: s)
  case Nil
  then show ?case by simp
next
  case (Cons i "is")
  show ?case
  proof (cases "ok i")
    case False
    then show ?thesis using Cons.prems by (simp add: ebind_def)
  next
    case True
    have "for_each is body (f i s) =
           (if \<forall>i\<in>set is. ok i then Inr (foldl (\<lambda>s i. f i s) (f i s) is) else Inl e)"
      by (rule Cons.IH) (use Cons.prems in auto)
    then show ?thesis using True Cons.prems by (simp add: ebind_def)
  qed
qed

lemma foldl_inv:
  "Inv s \<Longrightarrow> (\<And>i s. i \<in> set is \<Longrightarrow> Inv s \<Longrightarrow> Inv (f i s)) \<Longrightarrow> Inv (foldl (\<lambda>s i. f i s) s is)"
  by (induction "is" arbitrary: s) auto

lemma foldl_fill:
  "k \<le> length a \<Longrightarrow>
   foldl (\<lambda>a i. a[i := g i]) a [0..<k] = map g [0..<k] @ drop k a"
proof (induction k)
  case 0
  then show ?case by simp
next
  case (Suc k)
  then have "k < length a" by simp
  then show ?case using Suc
    by (simp add: upd_conv_take_nth_drop take_map  Cons_nth_drop_Suc drop_Suc list_update_append)
qed

lemma foldl_fill_replicate:
  "foldl (\<lambda>a i. a[i := g i]) (replicate n z) [0..<n] = map g [0..<n]"
  by (simp add: foldl_fill)

lemma br_pred_eq:
  "br_pred X sol p i =
     (if p = 0 \<or> (i < length (Dense X) \<and> p \<le> length (Dense X ! i) \<and> p \<le> length sol)
      then Inr (dot (Dense X ! i) sol p) else Inl (Panic IndexOutOfRange))"
proof -
  let ?ok = "\<lambda>j. i < length (Dense X) \<and> j < length (Dense X ! i) \<and> j < length sol"
  have "br_pred X sol p i =
          (if \<forall>j\<in>set [0..<p]. ?ok j
           then Inr (foldl (\<lambda>acc j. fadd acc (fmul (Dense X ! i ! j) (sol ! j))) (Fin 0) [0..<p])
           else Inl (Panic IndexOutOfRange))"
    unfolding br_pred_def
    by (rule for_each_guarded [where Inv = "\<lambda>_. True"])
       (auto simp: idx2_eq ToDense_def idx_def ebind_def)
  moreover have "(\<forall>j\<in>set [0..<p]. ?ok j) \<longleftrightarrow>
      (p = 0 \<or> (i < length (Dense X) \<and> p \<le> length (Dense X ! i) \<and> p \<le> length sol))"
  proof (cases p)
    case 0
    then show ?thesis by simp
  next
    case (Suc q)
    then show ?thesis by (auto simp: less_Suc_eq_le Suc_le_eq)
  qed
  ultimately show ?thesis by (simp add: dot_def)
qed


lemma in_range_all: "(\<forall>i\<in>set [0..<n]. Q i) \<longleftrightarrow> (\<forall>i<n. Q i)"
  by auto

lemma br_residuals_eq:
  "br_residuals y X sol n p =
     (if \<forall>i<n. (p = 0 \<or> (i < length (Dense X) \<and> p \<le> length (Dense X ! i) \<and> p \<le> length sol))
                \<and> i < length y
      then Inr (map (\<lambda>i. fsub (y ! i) (dot (Dense X ! i) sol p)) [0..<n])
      else Inl (Panic IndexOutOfRange))"
proof -
  let ?ok = "\<lambda>i. (p = 0 \<or> (i < length (Dense X) \<and> p \<le> length (Dense X ! i) \<and> p \<le> length sol))
                \<and> i < length y"
  let ?g = "\<lambda>i. fsub (y ! i) (dot (Dense X ! i) sol p)"
  have "br_residuals y X sol n p =
          (if \<forall>i\<in>set [0..<n]. ?ok i
           then Inr (foldl (\<lambda>a i. a[i := ?g i]) (replicate n (Fin 0)) [0..<n])
           else Inl (Panic IndexOutOfRange))"
    unfolding br_residuals_def
    by (rule for_each_guarded [where Inv = "\<lambda>_. True"])
       (auto simp: br_pred_eq idx_def ebind_def)
  then show ?thesis
    by (simp only: in_range_all foldl_fill_replicate)
qed

lemma br_grad_eq:
  "br_grad tau X res n i =
     (if \<forall>j<n. j < length res \<and> j < length (Dense X) \<and> i < length (Dense X ! j)
      then Inr (subgradient tau res (\<lambda>j. Dense X ! j ! i) n)
      else Inl (Panic IndexOutOfRange))"
proof -
  let ?ok = "\<lambda>j. j < length res \<and> j < length (Dense X) \<and> i < length (Dense X ! j)"
  have "br_grad tau X res n i =
          (if \<forall>j\<in>set [0..<n]. ?ok j
           then Inr (foldl (\<lambda>g j. fadd g (fmul (Dense X ! j ! i)
                      (if fgt (res ! j) (Fin 0) then fsub tau (Fin 1) else tau))) (Fin 0) [0..<n])
           else Inl (Panic IndexOutOfRange))"
    unfolding br_grad_def
    by (rule for_each_guarded [where Inv = "\<lambda>_. True"])
       (auto simp: idx2_eq ToDense_def idx_def ebind_def)
  then show ?thesis
    by (simp only: in_range_all subgradient_def check_weight_def)
qed

lemma foldl_pair_fill:
  "foldl (\<lambda>(g, m) i. (g[i := G i], Max64 m (Abs (G i)))) (a, m0) is =
     (foldl (\<lambda>g i. g[i := G i]) a is, foldl (\<lambda>m v. Max64 m (Abs v)) m0 (map G is))"
  by (induction "is" arbitrary: a m0) simp_all

lemma br_gradients_eq:
  "br_gradients tau X res n p =
     (if \<forall>i<p. \<forall>j<n. j < length res \<and> j < length (Dense X) \<and> i < length (Dense X ! j)
      then Inr (map (\<lambda>i. subgradient tau res (\<lambda>j. Dense X ! j ! i) n) [0..<p],
                max_abs (map (\<lambda>i. subgradient tau res (\<lambda>j. Dense X ! j ! i) n) [0..<p]))
      else Inl (Panic IndexOutOfRange))"
proof -
  let ?ok = "\<lambda>i. \<forall>j<n. j < length res \<and> j < length (Dense X) \<and> i < length (Dense X ! j)"
  let ?G = "\<lambda>i. subgradient tau res (\<lambda>j. Dense X ! j ! i) n"
  have "br_gradients tau X res n p =
          (if \<forall>i\<in>set [0..<p]. ?ok i
           then Inr (foldl (\<lambda>s i. (\<lambda>(g, m). (g[i := ?G i], Max64 m (Abs (?G i)))) s)
                       (replicate p (Fin 0), Fin 0) [0..<p])
           else Inl (Panic IndexOutOfRange))"
    unfolding br_gradients_def
    by (rule for_each_guarded [where Inv = "\<lambda>_. True"])
       (auto simp: br_grad_eq ebind_def)
  moreover have "foldl (\<lambda>s i. (\<lambda>(g, m). (g[i := ?G i], Max64 m (Abs (?G i)))) s)
                       (replicate p (Fin 0), Fin 0) [0..<p]
        = (map ?G [0..<p], max_abs (map ?G [0..<p]))"
  proof -
    have "(\<lambda>s i. (\<lambda>(g, m). (g[i := ?G i], Max64 m (Abs (?G i)))) s)
            = (\<lambda>(g, m) i. (g[i := ?G i], Max64 m (Abs (?G i))))"
      by (simp add: fun_eq_iff)
    then show ?thesis
      by (simp only: foldl_pair_fill foldl_fill_replicate max_abs_def)
  qed
  ultimately show ?thesis
    by (simp only: in_range_all)
qed

lemma foldl_step:
  "k \<le> length a \<Longrightarrow>
   foldl (\<lambda>a i. a[i := h i (a ! i)]) a [0..<k] = map (\<lambda>i. h i (a ! i)) [0..<k] @ drop k a"
proof (induction k)
  case 0
  then show ?case by simp
next
  case (Suc k)
  then have k: "k < length a" by simp
  have "(map (\<lambda>i. h i (a ! i)) [0..<k] @ drop k a) ! k = a ! k"
    using k by (simp add: nth_append)
  then show ?case using Suc k
    by (simp add: upd_conv_take_nth_drop take_map Cons_nth_drop_Suc drop_Suc list_update_append)
qed

lemma length_step_back: "length (step_back beta g) = length beta"
  by (simp add: step_back_def)

lemma descend_eq:
  assumes "length sol = p" and "length g = p"
  shows "descend sol g p = Inr (step_back sol g)"
proof -
  let ?f = "\<lambda>i a. a[i := fsub (a ! i) (fmul learningRate (g ! i))]"
  have "descend sol g p =
          (if \<forall>i\<in>set [0..<p]. True then Inr (foldl (\<lambda>a i. ?f i a) sol [0..<p])
           else Inl (Panic IndexOutOfRange))"
    unfolding descend_def
    by (rule for_each_guarded [where Inv = "\<lambda>a. length a = p"])
       (use assms in \<open>auto simp: idx_def ebind_def\<close>)
  moreover have "foldl (\<lambda>a i. a[i := (\<lambda>i v. fsub v (fmul learningRate (g ! i))) i (a ! i)]) sol [0..<p]
      = map (\<lambda>i. (\<lambda>i v. fsub v (fmul learningRate (g ! i))) i (sol ! i)) [0..<p] @ drop p sol"
    by (rule foldl_step) (use assms in simp)
  ultimately show ?thesis using assms by (simp add: step_back_def)
qed


lemma rows_ok_nth: "rows_ok x p \<longleftrightarrow> (\<forall>i<length x. p \<le> length (x ! i))"
  by (simp add: rows_ok_def list_all_length)

lemma length_descend_until: "length (descend_until k grad beta) = length beta"
  by (induction k arbitrary: beta) (simp_all add: length_step_back)

lemma br_iterate_ok:
  assumes "length (Dense X) = length y" and "rows_ok (Dense X) p"
  shows "length sol = p \<Longrightarrow>
         br_iterate k tau y X (length y) p sol =
           Inr (descend_until k (lin_gradient tau y (Dense X)) sol)"
proof (induction k arbitrary: sol)
  case 0
  then show ?case by simp
next
  case (Suc k)
  have rows: "\<forall>i<length y. p \<le> length (Dense X ! i)"
    using assms by (simp add: rows_ok_nth)
  have res: "br_residuals y X sol (length y) p = Inr (lin_residuals y (Dense X) sol)"
    using assms(1) rows Suc.prems by (simp add: br_residuals_eq lin_residuals_def)
  have grad: "br_gradients tau X (lin_residuals y (Dense X) sol) (length y) p =
                Inr (lin_gradient tau y (Dense X) sol, max_abs (lin_gradient tau y (Dense X) sol))"
  proof -
    have "\<forall>i<p. \<forall>j<length y. j < length (lin_residuals y (Dense X) sol) \<and> j < length (Dense X)
              \<and> i < length (Dense X ! j)"
      using assms(1) rows by (auto simp: lin_residuals_def)
    then show ?thesis
      using Suc.prems by (simp add: br_gradients_eq lin_gradient_def)
  qed
  have len: "length (lin_gradient tau y (Dense X) sol) = p"
    using Suc.prems by (simp add: lin_gradient_def)
  have desc: "descend sol (lin_gradient tau y (Dense X) sol) p =
                Inr (step_back sol (lin_gradient tau y (Dense X) sol))"
    using Suc.prems len by (rule descend_eq)
  have "length (step_back sol (lin_gradient tau y (Dense X) sol)) = p"
    using Suc.prems by (simp add: length_step_back)
  then have "br_iterate k tau y X (length y) p (step_back sol (lin_gradient tau y (Dense X) sol)) =
      Inr (descend_until k (lin_gradient tau y (Dense X))
             (step_back sol (lin_gradient tau y (Dense X) sol)))"
    by (rule Suc.IH)
  then show ?case
    by (simp add: res grad desc ebind_Inr)
qed

lemma br_iterate_panic:
  assumes "length (Dense X) = length y" and "\<not> rows_ok (Dense X) p"
  shows "br_iterate (Suc k) tau y X (length y) p sol = Inl (Panic IndexOutOfRange)"
proof -
  obtain i where i: "i < length y" "\<not> p \<le> length (Dense X ! i)"
    using assms by (auto simp: rows_ok_nth)
  then have "p \<noteq> 0" by auto
  with i have "br_residuals y X sol (length y) p = Inl (Panic IndexOutOfRange)"
    by (auto simp: br_residuals_eq)
  then show ?thesis by (simp add: ebind_Inl)
qed

lemma solveBarrodaleRoberts_eq:
  assumes "length x = length y" and "x \<noteq> []"
  shows "solveBarrodaleRoberts fit y (NewCSRMatrix x) =
     (if rows_ok x (length (hd x))
      then Inr (descend_until maxIter (lin_gradient (RQFit.Tau fit) y x)
                  (replicate (length (hd x)) (Fin 0)))
      else Inl (Panic IndexOutOfRange))"
proof -
  have c: "Cols (NewCSRMatrix x) = length (hd x)"
    using assms(2) by (cases x) (simp_all add: NewCSRMatrix_def)
  have dense: "Dense (NewCSRMatrix x) = x"
    by (simp add: NewCSRMatrix_def)
  show ?thesis
  proof (cases "rows_ok x (length (hd x))")
    case True
    then show ?thesis
      using br_iterate_ok [of "NewCSRMatrix x" y "length (hd x)" "replicate (length (hd x)) (Fin 0)"
              maxIter "RQFit.Tau fit"] assms
      by (simp add: solveBarrodaleRoberts_def c dense)
  next
    case False
    have "maxIter = Suc 999" by (simp add: maxIter_def)
    then show ?thesis
      using br_iterate_panic [of "NewCSRMatrix x" y "length (hd x)" 999 "RQFit.Tau fit"
              "replicate (length (hd x)) (Fin 0)"] assms False
      by (simp add: solveBarrodaleRoberts_def c dense)
  qed
qed

lemma rq_fitted_eq:
  "rq_fitted x coef p i =
     (if p = 0 \<or> (i < length x \<and> p \<le> length (x ! i) \<and> p \<le> length coef)
      then Inr (dot (x ! i) coef p) else Inl (Panic IndexOutOfRange))"
proof -
  let ?ok = "\<lambda>j. i < length x \<and> j < length (x ! i) \<and> j < length coef"
  have "rq_fitted x coef p i =
          (if \<forall>j\<in>set [0..<p]. ?ok j
           then Inr (foldl (\<lambda>acc j. fadd acc (fmul (x ! i ! j) (coef ! j))) (Fin 0) [0..<p])
           else Inl (Panic IndexOutOfRange))"
    unfolding rq_fitted_def
    by (rule for_each_guarded [where Inv = "\<lambda>_. True"])
       (auto simp: idx2_eq idx_def ebind_def)
  moreover have "(\<forall>j\<in>set [0..<p]. ?ok j) \<longleftrightarrow>
      (p = 0 \<or> (i < length x \<and> p \<le> length (x ! i) \<and> p \<le> length coef))"
  proof (cases p)
    case 0
    then show ?thesis by simp
  next
    case (Suc q)
    then show ?thesis by (auto simp: less_Suc_eq_le Suc_le_eq)
  qed
  ultimately show ?thesis by (simp add: dot_def)
qed

lemma foldl_fit_fill:
  "foldl (\<lambda>f i. f\<lparr>RQFit.Fitted := (RQFit.Fitted f)[i := g i],
                  RQFit.Residuals := (RQFit.Residuals f)[i := r i]\<rparr>) f0 is =
     f0\<lparr>RQFit.Fitted := foldl (\<lambda>a i. a[i := g i]) (RQFit.Fitted f0) is,
        RQFit.Residuals := foldl (\<lambda>a i. a[i := r i]) (RQFit.Residuals f0) is\<rparr>"
  by (induction "is" arbitrary: f0) simp_all

lemma RQ_eq:
  "RQ y x tau =
     (if y = [] \<or> x = [] then Inl EmptyInput
      else if length y \<noteq> length x then Inl DimensionMismatch
      else if fle tau (Fin 0) \<or> fge tau (Fin 1) then Inl InvalidTau
      else if rows_ok x (length (hd x)) then Inr (rq_result y x tau)
      else Inl (Panic IndexOutOfRange))"
proof -
  {
    assume ne: "y \<noteq> []" "x \<noteq> []" and len: "length y = length x"
      and tau: "\<not> (fle tau (Fin 0) \<or> fge tau (Fin 1))"
    let ?p = "length (hd x)"
    let ?n = "length y"
    let ?fit = "\<lparr>RQFit.Coefficients = [], RQFit.Residuals = [], RQFit.Fitted = [],
                 RQFit.Tau = tau, RQFit.N = ?n, RQFit.P = ?p,
                 RQFit.Method = ''br'', RQFit.Formula = []\<rparr>"
    let ?coef = "descend_until maxIter (lin_gradient tau y x) (replicate ?p (Fin 0))"
    have solve: "solveBarrodaleRoberts ?fit y (NewCSRMatrix x) =
        (if rows_ok x ?p then Inr ?coef else Inl (Panic IndexOutOfRange))"
      using solveBarrodaleRoberts_eq [of x y ?fit] len ne by simp
    have "RQ y x tau =
        (if rows_ok x ?p then Inr (rq_result y x tau) else Inl (Panic IndexOutOfRange))"
    proof (cases "rows_ok x ?p")
      case False
      then show ?thesis using ne len tau solve
        by (simp add: RQ_def Let_def ebind_Inl)
    next
      case True
      let ?g = "\<lambda>i. dot (x ! i) ?coef ?p"
      let ?r = "\<lambda>i. fsub (y ! i) (?g i)"
      let ?f0 = "?fit\<lparr>RQFit.Coefficients := ?coef, RQFit.Fitted := replicate ?n (Fin 0),
                RQFit.Residuals := replicate ?n (Fin 0)\<rparr>"
      have lc: "length ?coef = ?p"
        by (simp add: length_descend_until)
      have rows: "\<forall>i<length x. ?p \<le> length (x ! i)"
        using True by (simp add: rows_ok_nth)
      have loop: "for_each [0..<?n]
           (\<lambda>i f. ebind (rq_fitted x ?coef ?p i) (\<lambda>fitted. ebind (idx y i) (\<lambda>yi.
              Inr (f\<lparr>RQFit.Fitted := (RQFit.Fitted f)[i := fitted],
                     RQFit.Residuals := (RQFit.Residuals f)[i := fsub yi fitted]\<rparr>))))
           ?f0 =
         (if \<forall>i\<in>set [0..<?n]. True
          then Inr (foldl (\<lambda>f i. f\<lparr>RQFit.Fitted := (RQFit.Fitted f)[i := ?g i],
                  RQFit.Residuals := (RQFit.Residuals f)[i := ?r i]\<rparr>) ?f0 [0..<?n])
          else Inl (Panic IndexOutOfRange))"
        by (rule for_each_guarded [where Inv = "\<lambda>_. True"])
           (use rows len lc in \<open>auto simp: rq_fitted_eq idx_def ebind_def\<close>)
      have "RQ y x tau = Inr (foldl (\<lambda>f i. f\<lparr>RQFit.Fitted := (RQFit.Fitted f)[i := ?g i],
                  RQFit.Residuals := (RQFit.Residuals f)[i := ?r i]\<rparr>) ?f0 [0..<?n])"
        using ne len tau solve True loop
        by (simp add: RQ_def Let_def ebind_Inr)
      also have "\<dots> = Inr (rq_result y x tau)"
        by (simp add: foldl_fit_fill foldl_fill_replicate rq_result_def rq_fit_of_def Let_def)
      finally show ?thesis using True by simp
    qed
  }
  then show ?thesis
    by (auto simp: RQ_def)
qed


lemma copy_fresh: "copy (replicate (length xs) z) xs = xs"
  by (simp add: copy_def)

lemma foldl_pair_fill2:
  "foldl (\<lambda>(r, g) i. (r[i := R i], g[i := G i])) (a, b) is =
     (foldl (\<lambda>r i. r[i := R i]) a is, foldl (\<lambda>g i. g[i := G i]) b is)"
  by (induction "is" arbitrary: a b) simp_all

lemma ip_eval_eq:
  "ip_eval model y x beta n =
     (if \<forall>i<n. i < length x \<and> i < length y
      then Inr (map (\<lambda>i. fsub (y ! i) (NonLinearModel.F model beta (x ! i))) [0..<n],
                map (\<lambda>i. NonLinearModel.Gradient model beta (x ! i)) [0..<n])
      else Inl (Panic IndexOutOfRange))"
proof -
  let ?R = "\<lambda>i. fsub (y ! i) (NonLinearModel.F model beta (x ! i))"
  let ?G = "\<lambda>i. NonLinearModel.Gradient model beta (x ! i)"
  have "ip_eval model y x beta n =
          (if \<forall>i\<in>set [0..<n]. i < length x \<and> i < length y
           then Inr (foldl (\<lambda>s i. (\<lambda>(r, g). (r[i := ?R i], g[i := ?G i])) s)
                       (replicate n (Fin 0), replicate n []) [0..<n])
           else Inl (Panic IndexOutOfRange))"
    unfolding ip_eval_def
    by (rule for_each_guarded [where Inv = "\<lambda>_. True"])
       (auto simp: idx_def ebind_def Let_def)
  moreover have "(\<lambda>s i. (\<lambda>(r, g). (r[i := ?R i], g[i := ?G i])) s)
            = (\<lambda>(r, g) i. (r[i := ?R i], g[i := ?G i]))"
    by (simp add: fun_eq_iff)
  ultimately show ?thesis
    by (simp only: in_range_all foldl_pair_fill2 foldl_fill_replicate)
qed

lemma foldl_accum_at:
  "j < length a \<Longrightarrow>
   foldl (\<lambda>a i. a[j := fadd (a ! j) (c i)]) a is = a[j := foldl (\<lambda>g i. fadd g (c i)) (a ! j) is]"
  by (induction "is" arbitrary: a) simp_all

lemma ip_objGrad_inner:
  assumes "length og = p" and "j < p"
  shows "for_each [0..<n]
          (\<lambda>i objGrad. ebind (idx residuals i) (\<lambda>r.
             if fgt r (Fin 0)
             then ebind (idx objGrad j) (\<lambda>g. ebind (idx2 gradients i j) (\<lambda>d.
                    Inr (objGrad[j := fadd g (fmul d (fsub tau (Fin 1)))])))
             else ebind (idx objGrad j) (\<lambda>g. ebind (idx2 gradients i j) (\<lambda>d.
                    Inr (objGrad[j := fadd g (fmul d tau)]))))) og =
         (if \<forall>i<n. i < length residuals \<and> i < length gradients \<and> j < length (gradients ! i)
          then Inr (og[j := foldl (\<lambda>g i. fadd g (fmul (gradients ! i ! j)
                        (if fgt (residuals ! i) (Fin 0) then fsub tau (Fin 1) else tau)))
                        (og ! j) [0..<n]])
          else Inl (Panic IndexOutOfRange))"
proof -
  let ?c = "\<lambda>i. fmul (gradients ! i ! j)
                        (if fgt (residuals ! i) (Fin 0) then fsub tau (Fin 1) else tau)"
  let ?body = "(\<lambda>i objGrad. ebind (idx residuals i) (\<lambda>r.
             if fgt r (Fin 0)
             then ebind (idx objGrad j) (\<lambda>g. ebind (idx2 gradients i j) (\<lambda>d.
                    Inr (objGrad[j := fadd g (fmul d (fsub tau (Fin 1)))])))
             else ebind (idx objGrad j) (\<lambda>g. ebind (idx2 gradients i j) (\<lambda>d.
                    Inr (objGrad[j := fadd g (fmul d tau)])))))"
  have "for_each [0..<n] ?body og =
          (if \<forall>i\<in>set [0..<n]. i < length residuals \<and> i < length gradients \<and> j < length (gradients ! i)
           then Inr (foldl (\<lambda>a i. a[j := fadd (a ! j) (?c i)]) og [0..<n])
           else Inl (Panic IndexOutOfRange))"
    by (rule for_each_guarded [where Inv = "\<lambda>a. length a = p"])
       (use assms in \<open>auto simp: idx_def idx2_eq ebind_def\<close>)
  moreover have "foldl (\<lambda>a i. a[j := fadd (a ! j) (?c i)]) og [0..<n]
      = og[j := foldl (\<lambda>g i. fadd g (?c i)) (og ! j) [0..<n]]"
    by (rule foldl_accum_at) (use assms in simp)
  ultimately show ?thesis
    by (simp only: in_range_all)
qed

lemma ip_objGrad_eq:
  "ip_objGrad tau residuals gradients n p =
     (if \<forall>j<p. \<forall>i<n. i < length residuals \<and> i < length gradients \<and> j < length (gradients ! i)
      then Inr (map (\<lambda>j. subgradient tau residuals (\<lambda>i. gradients ! i ! j) n) [0..<p])
      else Inl (Panic IndexOutOfRange))"
proof -
  let ?ok = "\<lambda>j. \<forall>i<n. i < length residuals \<and> i < length gradients \<and> j < length (gradients ! i)"
  let ?h = "\<lambda>j v. foldl (\<lambda>g i. fadd g (fmul (gradients ! i ! j)
                        (if fgt (residuals ! i) (Fin 0) then fsub tau (Fin 1) else tau)))
                        v [0..<n]"
  have "ip_objGrad tau residuals gradients n p =
          (if \<forall>j\<in>set [0..<p]. ?ok j
           then Inr (foldl (\<lambda>a j. a[j := ?h j (a ! j)]) (replicate p (Fin 0)) [0..<p])
           else Inl (Panic IndexOutOfRange))"
    unfolding ip_objGrad_def
    by (rule for_each_guarded [where Inv = "\<lambda>a. length a = p"])
       (simp_all add: ip_objGrad_inner)
  moreover have "foldl (\<lambda>a j. a[j := ?h j (a ! j)]) (replicate p (Fin 0)) [0..<p]
      = map (\<lambda>j. ?h j (replicate p (Fin 0) ! j)) [0..<p] @ drop p (replicate p (Fin 0))"
    by (rule foldl_step) simp
  ultimately show ?thesis
    by (simp add: subgradient_def check_weight_def cong: map_cong)
qed

lemma foldl_nth_upt:
  "foldl (\<lambda>m j. h m (xs ! j)) m0 [0..<length xs] = foldl h m0 xs"
proof -
  have "foldl h m0 (map ((!) xs) [0..<length xs]) = foldl (\<lambda>m j. h m (xs ! j)) m0 [0..<length xs]"
    by (simp only: foldl_map)
  then show ?thesis by (simp add: map_nth)
qed

lemma ip_maxGrad_eq:
  assumes "length og = p"
  shows "ip_maxGrad og p = Inr (max_abs og)"
proof -
  have "ip_maxGrad og p =
          (if \<forall>j\<in>set [0..<p]. True
           then Inr (foldl (\<lambda>m j. Max64 m (Abs (og ! j))) (Fin 0) [0..<p])
           else Inl (Panic IndexOutOfRange))"
    unfolding ip_maxGrad_def
    by (rule for_each_guarded [where Inv = "\<lambda>_. True"])
       (use assms in \<open>auto simp: idx_def ebind_def\<close>)
  then show ?thesis
    using assms foldl_nth_upt [of "\<lambda>m v. Max64 m (Abs v)" og "Fin 0"]
    by (simp add: max_abs_def)
qed

lemma subgradient_cong:
  "(\<And>i. i < n \<Longrightarrow> d i = d' i) \<Longrightarrow> subgradient tau res d n = subgradient tau res d' n"
  unfolding subgradient_def check_weight_def
  by (rule foldl_cong) simp_all

lemma grads_ok_nth:
  "grads_ok model x p \<Longrightarrow> length beta = p \<Longrightarrow> i < length x \<Longrightarrow>
   p \<le> length (NonLinearModel.Gradient model beta (x ! i))"
  by (simp add: grads_ok_def)

lemma ip_iterate_ok:
  assumes "length x = length y" and "grads_ok model x p"
  shows "length beta = p \<Longrightarrow>
         ip_iterate k model tau y x (length y) p mu beta t =
           Inr (descend_until k (nl_gradient model tau y x) beta)"
proof (induction k arbitrary: beta t)
  case 0
  then show ?case by simp
next
  case (Suc k)
  let ?res = "nl_residuals model y x beta"
  let ?grads = "map (\<lambda>i. NonLinearModel.Gradient model beta (x ! i)) [0..<length y]"
  let ?g = "nl_gradient model tau y x beta"
  have ev: "ip_eval model y x beta (length y) = Inr (?res, ?grads)"
    using assms(1) by (simp add: ip_eval_eq nl_residuals_def)
  have og: "ip_objGrad tau ?res ?grads (length y) p = Inr ?g"
  proof -
    have a: "\<forall>j<p. \<forall>i<length y. i < length ?res \<and> i < length ?grads \<and> j < length (?grads ! i)"
      using assms Suc.prems grads_ok_nth [OF assms(2) Suc.prems]
      by (auto simp: nl_residuals_def less_le_trans)
    have b: "map (\<lambda>j. subgradient tau ?res (\<lambda>i. ?grads ! i ! j) (length y)) [0..<p] = ?g"
      using Suc.prems by (simp add: nl_gradient_def cong: subgradient_cong)
    show ?thesis
      by (simp only: ip_objGrad_eq if_P [OF a] b)
  qed
  have len: "length ?g = p"
    using Suc.prems by (simp add: nl_gradient_def)
  have mg: "ip_maxGrad ?g p = Inr (max_abs ?g)"
    using len by (rule ip_maxGrad_eq)
  have desc: "descend beta ?g p = Inr (step_back beta ?g)"
    using Suc.prems len by (rule descend_eq)
  have "length (step_back beta ?g) = p"
    using Suc.prems by (simp add: length_step_back)
  then have "ip_iterate k model tau y x (length y) p mu (step_back beta ?g) (fmul t mu) =
      Inr (descend_until k (nl_gradient model tau y x) (step_back beta ?g))"
    by (rule Suc.IH)
  then show ?case
    by (simp add: ev og mg desc ebind_Inr)
qed

lemma ip_iterate_plain:
  "ip_iterate k model tau y x n p mu beta t = plain_iterate k model tau y x n p beta"
proof (induction k arbitrary: beta t)
  case 0
  show ?case by simp
next
  case (Suc k)
  show ?case
    by (simp add: Suc.IH cong: if_cong)
qed

lemma for_each_pure:
  "(\<And>i s. i \<in> set is \<Longrightarrow> body i s = Inr (f i s)) \<Longrightarrow>
   for_each is body s = Inr (foldl (\<lambda>s i. f i s) s is)"
  by (induction "is" arbitrary: s) (simp_all add: ebind_def)


lemma foldl_nfit_fill:
  "foldl (\<lambda>f i. f\<lparr>NLRQFit.Fitted := (NLRQFit.Fitted f)[i := g i],
                  NLRQFit.Residuals := (NLRQFit.Residuals f)[i := r i]\<rparr>) f0 is =
     f0\<lparr>NLRQFit.Fitted := foldl (\<lambda>a i. a[i := g i]) (NLRQFit.Fitted f0) is,
        NLRQFit.Residuals := foldl (\<lambda>a i. a[i := r i]) (NLRQFit.Residuals f0) is\<rparr>"
  by (induction "is" arbitrary: f0) simp_all

lemma nlrq_loop:
  assumes "n \<le> length x" and "n \<le> length y"
  shows "for_each [0..<n]
           (\<lambda>i f. ebind (idx x i) (\<lambda>xi. ebind (idx y i) (\<lambda>yi.
                 Inr (f\<lparr>NLRQFit.Fitted := (NLRQFit.Fitted f)[i := g xi],
                        NLRQFit.Residuals := (NLRQFit.Residuals f)[i := fsub yi (g xi)]\<rparr>))))
           f0 =
         Inr (f0\<lparr>NLRQFit.Fitted :=
                    foldl (\<lambda>a i. a[i := g (x ! i)]) (NLRQFit.Fitted f0) [0..<n],
                  NLRQFit.Residuals :=
                    foldl (\<lambda>a i. a[i := fsub (y ! i) (g (x ! i))]) (NLRQFit.Residuals f0) [0..<n]\<rparr>)"
proof -
  have "for_each [0..<n]
           (\<lambda>i f. ebind (idx x i) (\<lambda>xi. ebind (idx y i) (\<lambda>yi.
                 Inr (f\<lparr>NLRQFit.Fitted := (NLRQFit.Fitted f)[i := g xi],
                        NLRQFit.Residuals := (NLRQFit.Residuals f)[i := fsub yi (g xi)]\<rparr>))))
           f0 =
         (if \<forall>i\<in>set [0..<n]. True
          then Inr (foldl (\<lambda>f i. f\<lparr>NLRQFit.Fitted := (NLRQFit.Fitted f)[i := g (x ! i)],
                  NLRQFit.Residuals := (NLRQFit.Residuals f)[i := fsub (y ! i) (g (x ! i))]\<rparr>)
                  f0 [0..<n])
          else Inl (Panic IndexOutOfRange))"
    by (rule for_each_guarded [where Inv = "\<lambda>_. True"])
       (use assms in \<open>auto simp: idx_def ebind_def\<close>)
  then show ?thesis
    by (simp add: foldl_nfit_fill)
qed

lemma map_nth_map:
  "map (\<lambda>i. f i (map g [0..<n] ! i)) [0..<n] = map (\<lambda>i. f i (g i)) [0..<n]"
  by (rule nth_equalityI) simp_all

lemma nlrq_fit_of_alt:
  "nlrq_fit_of y x model beta0 tau coef =
     \<lparr>NLRQFit.Coefficients = coef,
      NLRQFit.Residuals =
        map (\<lambda>i. fsub (y ! i) (NonLinearModel.F model coef (x ! i))) [0..<length y],
      NLRQFit.Fitted = map (\<lambda>i. NonLinearModel.F model coef (x ! i)) [0..<length y],
      NLRQFit.Tau = tau, NLRQFit.N = length y,
      NLRQFit.P = length beta0, NLRQFit.Model = model, NLRQFit.Formula = []\<rparr>"
  using map_nth_map [of "\<lambda>i. fsub (y ! i)" "\<lambda>i. NonLinearModel.F model coef (x ! i)" "length y"]
  by (simp add: nlrq_fit_of_def Let_def)

lemma NLRQ_eq:
  "NLRQ y x model beta0 tau =
     (if y = [] \<or> x = [] then Inl EmptyInput
      else if length y \<noteq> length x then Inl DimensionMismatch
      else if fle tau (Fin 0) \<or> fge tau (Fin 1) then Inl InvalidTau
      else ebind (solveInteriorPoint
                    \<lparr>NLRQFit.Coefficients = [], NLRQFit.Residuals = [], NLRQFit.Fitted = [],
                     NLRQFit.Tau = tau, NLRQFit.N = length y, NLRQFit.P = length beta0,
                     NLRQFit.Model = model, NLRQFit.Formula = []\<rparr> y x beta0)
             (\<lambda>coef. Inr (nlrq_fit_of y x model beta0 tau coef)))"
  by (simp add: NLRQ_def Let_def nlrq_loop foldl_fill_replicate nlrq_fit_of_alt)

lemma solveInteriorPoint_ok:
  assumes "length x = length y" and "grads_ok model x (length beta0)"
    and "NLRQFit.Model fit = model" and "NLRQFit.Tau fit = tau"
  shows "solveInteriorPoint fit y x beta0 =
           Inr (descend_until maxIter (nl_gradient model tau y x) beta0)"
  using ip_iterate_ok [OF assms(1,2), of beta0 maxIter tau "Fin 10" "Fin 1"] assms(3,4)
  by (simp add: solveInteriorPoint_def copy_fresh Let_def)

lemma NLRQ_ok:
  assumes "y \<noteq> []" and "length x = length y" and "\<not> (fle tau (Fin 0) \<or> fge tau (Fin 1))"
    and "grads_ok model x (length beta0)"
  shows "NLRQ y x model beta0 tau = Inr (nlrq_result y x model beta0 tau)"
proof -
  have "x \<noteq> []" using assms(1,2) by auto
  then show ?thesis
    using assms solveInteriorPoint_ok [OF assms(2) assms(4), where tau = tau]
    by (simp add: NLRQ_eq nlrq_result_def ebind_Inr)
qed

lemma NLRQ_Inr:
  assumes "NLRQ y x model beta0 tau = Inr fit"
  shows "\<exists>coef. fit = nlrq_fit_of y x model beta0 tau coef"
  using assms by (auto simp: NLRQ_eq ebind_def split: if_splits sum.splits)

lemma RQ_Inr:
  assumes "RQ y x tau = Inr fit"
  shows "fit = rq_result y x tau"
  using assms by (auto simp: RQ_eq split: if_splits)

lemma descend_until_stop:
  assumes "flt (max_abs (grad beta)) tolerance"
  shows "descend_until maxIter grad beta = beta"
proof -
  have m: "maxIter = Suc 999" by (simp add: maxIter_def)
  show ?thesis
    by (simp only: m descend_until.simps assms if_True)
qed

lemma rq_fit_of_alt:
  "rq_fit_of y x tau coef =
     \<lparr>RQFit.Coefficients = coef,
      RQFit.Residuals = map (\<lambda>i. fsub (y ! i) (dot (x ! i) coef (length (hd x)))) [0..<length y],
      RQFit.Fitted = map (\<lambda>i. dot (x ! i) coef (length (hd x))) [0..<length y],
      RQFit.Tau = tau, RQFit.N = length y, RQFit.P = length (hd x),
      RQFit.Method = ''br'', RQFit.Formula = []\<rparr>"
  using map_nth_map [of "\<lambda>i. fsub (y ! i)" "\<lambda>i. dot (x ! i) coef (length (hd x))" "length y"]
  by (simp add: rq_fit_of_def Let_def)


lemma RQFit_Predict_eq:
  "RQFit_Predict fit newX =
     (if newX = [] then Inl EmptyInput
      else if length (hd newX) \<noteq> RQFit.P fit then Inl DimensionMismatch
      else if RQFit.P fit = 0 \<or>
              (rows_ok newX (RQFit.P fit) \<and> RQFit.P fit \<le> length (RQFit.Coefficients fit))
      then Inr (map (\<lambda>row. dot row (RQFit.Coefficients fit) (RQFit.P fit)) newX)
      else Inl (Panic IndexOutOfRange))"
proof -
  let ?p = "RQFit.P fit"
  let ?c = "RQFit.Coefficients fit"
  let ?n = "length newX"
  let ?ok = "\<lambda>i. ?p = 0 \<or> (?p \<le> length (newX ! i) \<and> ?p \<le> length ?c)"
  have loop: "for_each [0..<?n]
           (\<lambda>i predictions. ebind (rq_fitted newX ?c ?p i) (\<lambda>pred.
              Inr (predictions[i := pred])))
           (replicate ?n (Fin 0)) =
        (if \<forall>i\<in>set [0..<?n]. ?ok i
         then Inr (foldl (\<lambda>a i. a[i := dot (newX ! i) ?c ?p]) (replicate ?n (Fin 0)) [0..<?n])
         else Inl (Panic IndexOutOfRange))"
    by (rule for_each_guarded [where Inv = "\<lambda>_. True"])
       (auto simp: rq_fitted_eq ebind_def)
  have m: "map (\<lambda>i. dot (newX ! i) ?c ?p) [0..<?n] = map (\<lambda>row. dot row ?c ?p) newX"
    by (rule nth_equalityI) simp_all
  have all: "(\<forall>i\<in>set [0..<?n]. ?ok i) \<longleftrightarrow>
      (newX = [] \<or> ?p = 0 \<or> (rows_ok newX ?p \<and> ?p \<le> length ?c))"
  proof (cases "newX = []")
    case True
    then show ?thesis by simp
  next
    case False
    then have "0 < length newX" by simp
    then show ?thesis using False unfolding in_range_all rows_ok_nth by blast
  qed
  have fill: "foldl (\<lambda>a i. a[i := dot (newX ! i) ?c ?p]) (replicate ?n (Fin 0)) [0..<?n] =
      map (\<lambda>row. dot row ?c ?p) newX"
    by (simp only: foldl_fill_replicate m)
  show ?thesis
  proof (cases "newX = [] \<or> length (hd newX) \<noteq> ?p")
    case True
    then show ?thesis by (auto simp: RQFit_Predict_def)
  next
    case False
    then have "RQFit_Predict fit newX =
        (if \<forall>i\<in>set [0..<?n]. ?ok i then Inr (map (\<lambda>row. dot row ?c ?p) newX)
         else Inl (Panic IndexOutOfRange))"
      by (simp add: RQFit_Predict_def Let_def loop fill del: set_upt)
    then show ?thesis
      using False by (simp only: all) simp
  qed
qed






lemma float64_less_asym: "float64_less a b \<Longrightarrow> \<not> float64_less b a"
  by (cases a; cases b) (auto simp: float64_less_def)

lemma float64_less_le64_trans: "float64_less a b \<Longrightarrow> le64 b c \<Longrightarrow> le64 a c"
  by (cases a; cases b; cases c) (auto simp: float64_less_def le64_def)

lemma set_insert64: "set (insert64 a bs) = insert a (set bs)"
  by (induction bs) auto

lemma mset_insert64: "mset (insert64 a bs) = add_mset a (mset bs)"
  by (induction bs) auto

lemma sorted_insert64: "sorted_wrt le64 bs \<Longrightarrow> sorted_wrt le64 (insert64 a bs)"
proof (induction bs)
  case Nil
  then show ?case by simp
next
  case (Cons b bs)
  show ?case
  proof (cases "float64_less a b")
    case True
    then have ab: "le64 a b" by (simp add: le64_def float64_less_asym)
    have "\<forall>c\<in>set bs. le64 b c" using Cons.prems by simp
    then have "\<forall>c\<in>set bs. le64 a c"
      using float64_less_le64_trans [OF True] by blast
    then show ?thesis using True ab Cons.prems by simp
  next
    case False
    then have "le64 b a" by (simp add: le64_def)
    then show ?thesis using False Cons by (simp add: set_insert64)
  qed
qed

lemma mset_Float64s: "mset (Float64s xs) = mset xs"
  by (induction xs) (simp_all add: Float64s_def mset_insert64)

lemma set_Float64s: "set (Float64s xs) = set xs"
  using mset_Float64s [of xs] by (metis set_mset_mset)

lemma length_Float64s: "length (Float64s xs) = length xs"
  using mset_Float64s [of xs] by (metis size_mset)

lemma sorted_Float64s: "sorted_wrt le64 (Float64s xs)"
  by (induction xs) (simp_all add: Float64s_def sorted_insert64)

lemma le64_valid: "valid_tau a \<Longrightarrow> valid_tau b \<Longrightarrow> le64 a b \<longleftrightarrow> fle a b"
  by (cases a; cases b) (auto simp: valid_tau_def le64_def float64_less_def fle_def feq_def)

lemma sorted_Float64s_valid:
  assumes "list_all valid_tau xs"
  shows "sorted_wrt fle (Float64s xs)"
proof -
  have "\<forall>a\<in>set (Float64s xs). valid_tau a"
    using assms by (simp add: set_Float64s list_all_iff)
  then have "\<And>a b. a \<in> set (Float64s xs) \<Longrightarrow> b \<in> set (Float64s xs) \<Longrightarrow> le64 a b \<Longrightarrow> fle a b"
    by (simp add: le64_valid)
  then show ?thesis
    using sorted_Float64s [of xs] sorted_wrt_mono_rel [of "Float64s xs" le64 fle] by blast
qed

lemma outside_unit_eq: "fle t (Fin 0) \<or> fge t (Fin 1) \<longleftrightarrow> outside_unit t"
  by (cases t) (auto simp: outside_unit_def fle_def fge_def feq_def)

lemma valid_tau_inside: "valid_tau t \<Longrightarrow> \<not> outside_unit t"
  by (cases t) (auto simp: valid_tau_def outside_unit_def)

lemma for_each_Inr_foldl:
  assumes "for_each is body s = Inr s'"
    and "\<And>i s t. i \<in> set is \<Longrightarrow> body i s = Inr t \<Longrightarrow> t = f i s"
  shows "s' = foldl (\<lambda>s i. f i s) s is"
  using assms
proof (induction "is" arbitrary: s)
  case Nil
  then show ?case by simp
next
  case (Cons i "is")
  from Cons.prems(1) obtain t where t: "body i s = Inr t" and r: "for_each is body t = Inr s'"
    by (auto simp: ebind_def split: sum.splits)
  have "t = f i s" using Cons.prems(2) t by simp
  moreover have "s' = foldl (\<lambda>s i. f i s) t is"
    using r Cons.prems(2) by (intro Cons.IH) auto
  ultimately show ?case by simp
qed

lemma for_each_Inr_step:
  assumes "for_each is body s = Inr s'" and "i \<in> set is"
  shows "\<exists>s1 s2. body i s1 = Inr s2"
  using assms
proof (induction "is" arbitrary: s)
  case Nil
  then show ?case by simp
next
  case (Cons j "is")
  from Cons.prems(1) obtain t where t: "body j s = Inr t" and r: "for_each is body t = Inr s'"
    by (auto simp: ebind_def split: sum.splits)
  show ?case
  proof (cases "i = j")
    case True
    then show ?thesis using t by blast
  next
    case False
    then show ?thesis using Cons.IH [OF r] Cons.prems(2) by simp
  qed
qed

lemma check_taus_eq:
  "for_each ts (\<lambda>tau u. if fle tau (Fin 0) \<or> fge tau (Fin 1) then Inl InvalidTau else Inr u) () =
     (if \<exists>t\<in>set ts. outside_unit t then Inl InvalidTau else Inr ())"
proof -
  have "for_each ts (\<lambda>tau u. if fle tau (Fin 0) \<or> fge tau (Fin 1) then Inl InvalidTau else Inr u) () =
     (if \<forall>t\<in>set ts. \<not> outside_unit t then Inr (foldl (\<lambda>s i. s) () ts) else Inl InvalidTau)"
    by (rule for_each_guarded [where Inv = "\<lambda>_. True"]) (simp_all add: outside_unit_eq)
  then show ?thesis by auto
qed

lemma foldl_collect:
  "foldl (\<lambda>s tau. (\<lambda>(fits, firstFit).
        (store64 fits tau (g tau), if firstFit = None then Some (g tau) else firstFit)) s)
     (fits0, first0) ts =
   ((\<lambda>t. if t \<in> set ts \<and> t \<noteq> NaN then Some (g t) else fits0 t),
    (if first0 \<noteq> None then first0 else case ts of [] \<Rightarrow> None | t # _ \<Rightarrow> Some (g t)))"
proof (induction ts arbitrary: fits0 first0)
  case Nil
  then show ?case by simp
next
  case (Cons a ts)
  show ?case
    by (simp add: Cons.IH) (auto simp: store64_def fun_eq_iff)
qed

lemma fit_loop_ok:
  assumes "\<And>t. t \<in> set ts \<Longrightarrow> fitf t = Inr (g t)"
  shows "for_each ts
           (\<lambda>tau (fits, firstFit).
              case fitf tau of
                Inl (Panic k) \<Rightarrow> Inl (Panic k)
              | Inl e \<Rightarrow> Inl (FitFailed tau e)
              | Inr fit \<Rightarrow>
                  Inr (store64 fits tau fit, if firstFit = None then Some fit else firstFit))
           (Map.empty, None) = Inr (collect_fits g ts)"
proof -
  have "for_each ts
           (\<lambda>tau (fits, firstFit).
              case fitf tau of
                Inl (Panic k) \<Rightarrow> Inl (Panic k)
              | Inl e \<Rightarrow> Inl (FitFailed tau e)
              | Inr fit \<Rightarrow>
                  Inr (store64 fits tau fit, if firstFit = None then Some fit else firstFit))
           (Map.empty, None) =
        Inr (foldl (\<lambda>s tau. (\<lambda>(fits, firstFit).
        (store64 fits tau (g tau), if firstFit = None then Some (g tau) else firstFit)) s)
          (Map.empty, None) ts)"
    by (rule for_each_pure) (auto simp: assms)
  then show ?thesis
    by (simp add: foldl_collect collect_fits_def)
qed

lemma fit_loop_Inr:
  assumes "for_each ts
           (\<lambda>tau (fits, firstFit).
              case fitf tau of
                Inl (Panic k) \<Rightarrow> Inl (Panic k)
              | Inl e \<Rightarrow> Inl (FitFailed tau e)
              | Inr fit \<Rightarrow>
                  Inr (store64 fits tau fit, if firstFit = None then Some fit else firstFit))
           (Map.empty, None) = Inr r"
  shows "\<forall>t\<in>set ts. fitf t = Inr (projr (fitf t))" and "r = collect_fits (\<lambda>t. projr (fitf t)) ts"
proof -
  show a: "\<forall>t\<in>set ts. fitf t = Inr (projr (fitf t))"
  proof
    fix t assume "t \<in> set ts"
    from for_each_Inr_step [OF assms this] obtain s1 s2 where
      "(case s1 of (fits, firstFit) \<Rightarrow>
              case fitf t of
                Inl (Panic k) \<Rightarrow> Inl (Panic k)
              | Inl e \<Rightarrow> Inl (FitFailed t e)
              | Inr fit \<Rightarrow>
                  Inr (store64 fits t fit, if firstFit = None then Some fit else firstFit)) = Inr s2"
      by blast
    then show "fitf t = Inr (projr (fitf t))"
      by (cases "fitf t") (auto split: prod.splits error.splits)
  qed
  have "for_each ts
           (\<lambda>tau (fits, firstFit).
              case fitf tau of
                Inl (Panic k) \<Rightarrow> Inl (Panic k)
              | Inl e \<Rightarrow> Inl (FitFailed tau e)
              | Inr fit \<Rightarrow>
                  Inr (store64 fits tau fit, if firstFit = None then Some fit else firstFit))
           (Map.empty, None) = Inr (collect_fits (\<lambda>t. projr (fitf t)) ts)"
    by (rule fit_loop_ok) (use a in auto)
  with assms show "r = collect_fits (\<lambda>t. projr (fitf t)) ts" by simp
qed

lemma Float64s_Nil_iff: "Float64s xs = [] \<longleftrightarrow> xs = []"
  using length_Float64s [of xs] by (metis length_0_conv)

lemma collect_fits_first:
  "ts \<noteq> [] \<Longrightarrow> snd (collect_fits g ts) = Some (g (hd ts))"
  by (cases ts) (simp_all add: collect_fits_def)

lemma RQProcess_invalid:
  assumes "taus \<noteq> []" and "\<exists>t\<in>set taus. outside_unit t"
  shows "RQProcess y x taus = Inl InvalidTau"
  using assms
  by (simp add: RQProcess_def Let_def copy_fresh check_taus_eq set_Float64s ebind_def)

lemma NLRQProcess_invalid:
  assumes "taus \<noteq> []" and "\<exists>t\<in>set taus. outside_unit t"
  shows "NLRQProcess y x model beta0 taus = Inl InvalidTau"
  using assms
  by (simp add: NLRQProcess_def Let_def copy_fresh check_taus_eq set_Float64s ebind_def)

lemma RQProcess_ok:
  assumes "taus \<noteq> []" and "\<forall>t\<in>set taus. \<not> outside_unit t"
    and "\<And>t. t \<in> set taus \<Longrightarrow> RQ y x t = Inr (g t)"
  shows "RQProcess y x taus = Inr (multi_rq_of g taus)"
proof -
  let ?ts = "Float64s taus"
  have ne: "?ts \<noteq> []" using assms(1) by (simp add: Float64s_Nil_iff)
  have loop: "for_each ?ts
           (\<lambda>tau (fits, firstFit).
              case RQ y x tau of
                Inl (Panic k) \<Rightarrow> Inl (Panic k)
              | Inl e \<Rightarrow> Inl (FitFailed tau e)
              | Inr fit \<Rightarrow>
                  Inr (store64 fits tau fit, if firstFit = None then Some fit else firstFit))
           (Map.empty, None) = Inr (collect_fits g ?ts)"
    by (rule fit_loop_ok) (simp add: assms(3) set_Float64s)
  have c: "collect_fits g ?ts = (fst (collect_fits g ?ts), Some (g (hd ?ts)))"
    using collect_fits_first [OF ne, of g] by (metis prod.collapse)
  have chk: "for_each ?ts
      (\<lambda>tau u. if fle tau (Fin 0) \<or> fge tau (Fin 1) then Inl InvalidTau else Inr u) () = Inr ()"
    using assms(2) by (simp add: check_taus_eq set_Float64s)
  show ?thesis
    unfolding RQProcess_def Let_def copy_fresh chk loop
    using assms(1) by (subst c) (simp add: ebind_def multi_rq_of_def Let_def)
qed

lemma NLRQProcess_ok:
  assumes "taus \<noteq> []" and "\<forall>t\<in>set taus. \<not> outside_unit t"
    and "\<And>t. t \<in> set taus \<Longrightarrow> NLRQ y x model beta0 t = Inr (g t)"
  shows "NLRQProcess y x model beta0 taus = Inr (multi_nlrq_of g model taus)"
proof -
  let ?ts = "Float64s taus"
  have ne: "?ts \<noteq> []" using assms(1) by (simp add: Float64s_Nil_iff)
  have loop: "for_each ?ts
           (\<lambda>tau (fits, firstFit).
              case NLRQ y x model beta0 tau of
                Inl (Panic k) \<Rightarrow> Inl (Panic k)
              | Inl e \<Rightarrow> Inl (FitFailed tau e)
              | Inr fit \<Rightarrow>
                  Inr (store64 fits tau fit, if firstFit = None then Some fit else firstFit))
           (Map.empty, None) = Inr (collect_fits g ?ts)"
    by (rule fit_loop_ok) (simp add: assms(3) set_Float64s)
  have c: "collect_fits g ?ts = (fst (collect_fits g ?ts), Some (g (hd ?ts)))"
    using collect_fits_first [OF ne, of g] by (metis prod.collapse)
  have chk: "for_each ?ts
      (\<lambda>tau u. if fle tau (Fin 0) \<or> fge tau (Fin 1) then Inl InvalidTau else Inr u) () = Inr ()"
    using assms(2) by (simp add: check_taus_eq set_Float64s)
  show ?thesis
    unfolding NLRQProcess_def Let_def copy_fresh chk loop
    using assms(1) by (subst c) (simp add: ebind_def multi_nlrq_of_def Let_def)
qed

lemma RQProcess_Inr:
  assumes "RQProcess y x taus = Inr m"
  shows "taus \<noteq> []" and "\<forall>t\<in>set taus. \<not> outside_unit t"
    and "\<forall>t\<in>set taus. RQ y x t = Inr (projr (RQ y x t))"
    and "m = multi_rq_of (\<lambda>t. projr (RQ y x t)) taus"
proof -
  let ?ts = "Float64s taus"
  show ne: "taus \<noteq> []" using assms by (auto simp: RQProcess_def)
  show valid: "\<forall>t\<in>set taus. \<not> outside_unit t"
    using assms ne RQProcess_invalid [of taus y x] by (cases "\<exists>t\<in>set taus. outside_unit t") auto
  have chk: "for_each ?ts
      (\<lambda>tau u. if fle tau (Fin 0) \<or> fge tau (Fin 1) then Inl InvalidTau else Inr u) () = Inr ()"
    using valid by (simp add: check_taus_eq set_Float64s)
  from assms ne obtain r where loop: "for_each ?ts
           (\<lambda>tau (fits, firstFit).
              case RQ y x tau of
                Inl (Panic k) \<Rightarrow> Inl (Panic k)
              | Inl e \<Rightarrow> Inl (FitFailed tau e)
              | Inr fit \<Rightarrow>
                  Inr (store64 fits tau fit, if firstFit = None then Some fit else firstFit))
           (Map.empty, None) = Inr r"
    unfolding RQProcess_def Let_def copy_fresh chk
    by (auto simp: ebind_def split: sum.splits)
  show all: "\<forall>t\<in>set taus. RQ y x t = Inr (projr (RQ y x t))"
    using fit_loop_Inr(1) [OF loop] by (simp add: set_Float64s)
  have "RQProcess y x taus = Inr (multi_rq_of (\<lambda>t. projr (RQ y x t)) taus)"
    by (rule RQProcess_ok [OF ne valid]) (use all in auto)
  with assms show "m = multi_rq_of (\<lambda>t. projr (RQ y x t)) taus" by simp
qed

lemma NLRQProcess_Inr:
  assumes "NLRQProcess y x model beta0 taus = Inr m"
  shows "taus \<noteq> []" and "\<forall>t\<in>set taus. \<not> outside_unit t"
    and "\<forall>t\<in>set taus. NLRQ y x model beta0 t = Inr (projr (NLRQ y x model beta0 t))"
    and "m = multi_nlrq_of (\<lambda>t. projr (NLRQ y x model beta0 t)) model taus"
proof -
  let ?ts = "Float64s taus"
  show ne: "taus \<noteq> []" using assms by (auto simp: NLRQProcess_def)
  show valid: "\<forall>t\<in>set taus. \<not> outside_unit t"
    using assms ne NLRQProcess_invalid [of taus y x model beta0]
    by (cases "\<exists>t\<in>set taus. outside_unit t") auto
  have chk: "for_each ?ts
      (\<lambda>tau u. if fle tau (Fin 0) \<or> fge tau (Fin 1) then Inl InvalidTau else Inr u) () = Inr ()"
    using valid by (simp add: check_taus_eq set_Float64s)
  from assms ne obtain r where loop: "for_each ?ts
           (\<lambda>tau (fits, firstFit).
              case NLRQ y x model beta0 tau of
                Inl (Panic k) \<Rightarrow> Inl (Panic k)
              | Inl e \<Rightarrow> Inl (FitFailed tau e)
              | Inr fit \<Rightarrow>
                  Inr (store64 fits tau fit, if firstFit = None then Some fit else firstFit))
           (Map.empty, None) = Inr r"
    unfolding NLRQProcess_def Let_def copy_fresh chk
    by (auto simp: ebind_def split: sum.splits)
  show all: "\<forall>t\<in>set taus. NLRQ y x model beta0 t = Inr (projr (NLRQ y x model beta0 t))"
    using fit_loop_Inr(1) [OF loop] by (simp add: set_Float64s)
  have "NLRQProcess y x model beta0 taus =
      Inr (multi_nlrq_of (\<lambda>t. projr (NLRQ y x model beta0 t)) model taus)"
    by (rule NLRQProcess_ok [OF ne valid]) (use all in auto)
  with assms show "m = multi_nlrq_of (\<lambda>t. projr (NLRQ y x model beta0 t)) model taus" by simp
qed

lemma valid_tau_not_NaN: "valid_tau t \<Longrightarrow> t \<noteq> NaN"
  by (auto simp: valid_tau_def)

lemma multi_rq_of_facts:
  assumes "list_all valid_tau taus"
  shows "MultiRQFit.Taus (multi_rq_of g taus) = Float64s taus"
    and "dom (MultiRQFit.Fits (multi_rq_of g taus)) = set taus"
    and "t \<in> set taus \<Longrightarrow> MultiRQFit.Fits (multi_rq_of g taus) t = Some (g t)"
    and "MultiRQFit.N (multi_rq_of g taus) = RQFit.N (g (hd (Float64s taus)))"
    and "MultiRQFit.P (multi_rq_of g taus) = RQFit.P (g (hd (Float64s taus)))"
  using assms valid_tau_not_NaN
  by (auto simp: multi_rq_of_def Let_def collect_fits_def set_Float64s list_all_iff dom_def)

lemma multi_nlrq_of_facts:
  assumes "list_all valid_tau taus"
  shows "MultiNLRQFit.Taus (multi_nlrq_of g model taus) = Float64s taus"
    and "dom (MultiNLRQFit.Fits (multi_nlrq_of g model taus)) = set taus"
    and "t \<in> set taus \<Longrightarrow> MultiNLRQFit.Fits (multi_nlrq_of g model taus) t = Some (g t)"
    and "MultiNLRQFit.N (multi_nlrq_of g model taus) = NLRQFit.N (g (hd (Float64s taus)))"
    and "MultiNLRQFit.P (multi_nlrq_of g model taus) = NLRQFit.P (g (hd (Float64s taus)))"
  using assms valid_tau_not_NaN
  by (auto simp: multi_nlrq_of_def Let_def collect_fits_def set_Float64s list_all_iff dom_def)









section \<open>The example inputs, evaluated\<close>

lemma tau_half_ok: "\<not> (fle (Fin (1 / 2)) (Fin 0) \<or> fge (Fin (1 / 2)) (Fin 1))"
  by (simp add: fle_def fge_def feq_def)

lemma half_minus_one: "fsub (Fin (1 / 2)) (Fin 1) = Fin (- (1 / 2))"
  by (simp add: fsub_def round64_neg_half)

lemma tiny_minus_one: "fsub (Fin tiny) (Fin 1) = Fin (- 1)"
proof -
  have "round64 (1 / 2 ^ 70 - 1) = Fin (- 1)"
    by (rule round64_eval [where e = "- 1" and e' = "- 53" and m = "- (2 ^ 53)"])
       (simp_all add: round_even_def)
  then show ?thesis by (simp add: fsub_def tiny_def)
qed

lemma tiny_representable: "round64 tiny = Fin tiny"
  unfolding tiny_def
  by (rule round64_exact [where m = 1 and e = "- 70"]) simp_all

lemma two_minus_one: "fsub (Fin 2) (Fin 1) = Fin 1"
  by (simp add: fsub_def round64_1)

lemma intercept_grads_ok: "grads_ok intercept_model x (Suc 0)"
  by (simp add: grads_ok_def intercept_model_def)

lemma intercept_gradient:
  "nl_gradient intercept_model (Fin (1 / 2)) [Fin 2, Fin tiny] [[], []] [Fin 1] = [Fin 0]"
  by (simp add: nl_gradient_def nl_residuals_def subgradient_def check_weight_def intercept_model_def
        tiny_minus_one two_minus_one half_minus_one fgt_def round64_half round64_neg_half
        round64_0)

lemma intercept_solve:
  "descend_until maxIter
     (nl_gradient intercept_model (Fin (1 / 2)) [Fin 2, Fin tiny] [[], []]) [Fin 1] =
   [Fin 1]"
  by (rule descend_until_stop)
     (simp add: intercept_gradient max_abs_def Max64_def fgt_def zero_below_tolerance)

lemma intercept_fit:
  "NLRQ [Fin 2, Fin tiny] [[], []] intercept_model [Fin 1] (Fin (1 / 2)) =
     Inr \<lparr>NLRQFit.Coefficients = [Fin 1], NLRQFit.Residuals = [Fin 1, Fin (- 1)],
          NLRQFit.Fitted = [Fin 1, Fin 1], NLRQFit.Tau = Fin (1 / 2), NLRQFit.N = 2,
          NLRQFit.P = 1, NLRQFit.Model = intercept_model, NLRQFit.Formula = []\<rparr>"
proof -
  have "NLRQ [Fin 2, Fin tiny] [[], []] intercept_model [Fin 1] (Fin (1 / 2)) =
      Inr (nlrq_result [Fin 2, Fin tiny] [[], []] intercept_model [Fin 1] (Fin (1 / 2)))"
    by (rule NLRQ_ok) (simp_all add: tau_half_ok intercept_grads_ok)
  moreover have "NonLinearModel.F intercept_model [Fin 1] xi = Fin 1" for xi
    by (simp add: intercept_model_def)
  ultimately show ?thesis
    by (simp add: nlrq_result_def intercept_solve nlrq_fit_of_alt
          tiny_minus_one two_minus_one)
qed

lemma one_minus_zero: "fsub (Fin 1) (Fin 0) = Fin 1"
  by (simp add: fsub_def round64_1)

lemma flat_gradient:
  "lin_gradient (Fin (1 / 2)) [Fin 1] [[Fin 0]] [Fin 0] = [Fin 0]"
  by (simp add: lin_gradient_def lin_residuals_def subgradient_def check_weight_def dot_def one_minus_zero
        half_minus_one fgt_def round64_0)

lemma flat_fit_eq: "RQ [Fin 1] [[Fin 0]] (Fin (1 / 2)) = Inr flat_fit"
proof -
  have "descend_until maxIter (lin_gradient (Fin (1 / 2)) [Fin 1] [[Fin 0]]) [Fin 0] = [Fin 0]"
    by (rule descend_until_stop)
       (simp add: flat_gradient max_abs_def Max64_def fgt_def zero_below_tolerance)
  then show ?thesis
    using tau_half_ok
    by (simp add: RQ_eq rows_ok_def rq_result_def rq_fit_of_alt dot_def round64_0
          one_minus_zero flat_fit_def)
qed

lemma tiny_fit_eq:
  "NLRQ [Fin 2, Fin tiny] [[], []] intercept_model [Fin 1] (Fin (1 / 2)) = Inr tiny_fit"
  by (simp add: intercept_fit tiny_fit_def)


lemma line_predict:
  "RQFit_Predict line_fit [[Fin 1, Fin 1]] = Inr [Fin 3]"
  by (simp add: RQFit_Predict_eq line_fit_def rows_ok_def dot_def round64_0 round64_1
        round64_numeral numeral_2_eq_2)

lemma line_predict_ragged:
  "RQFit_Predict line_fit [[Fin 1, Fin 1], [Fin 1]] = Inl (Panic IndexOutOfRange)"
  by (simp add: RQFit_Predict_eq line_fit_def rows_ok_def)





lemma flat_fit_at_eq:
  assumes "0 < r" and "r < 1" and "fsub (Fin r) (Fin 1) = Fin s"
  shows "RQ [Fin 1] [[Fin 0]] (Fin r) = Inr (flat_fit_at r)"
proof -
  have g: "lin_gradient (Fin r) [Fin 1] [[Fin 0]] [Fin 0] = [Fin 0]"
    by (simp add: lin_gradient_def lin_residuals_def subgradient_def check_weight_def dot_def
          one_minus_zero assms(3) fgt_def round64_0)
  have "descend_until maxIter (lin_gradient (Fin r) [Fin 1] [[Fin 0]]) [Fin 0] = [Fin 0]"
    by (rule descend_until_stop)
       (simp add: g max_abs_def Max64_def fgt_def zero_below_tolerance)
  moreover have "\<not> (fle (Fin r) (Fin 0) \<or> fge (Fin r) (Fin 1))"
    using assms(1,2) by (simp add: fle_def fge_def feq_def)
  ultimately show ?thesis
    by (simp add: RQ_eq rows_ok_def rq_result_def rq_fit_of_alt dot_def round64_0
          one_minus_zero flat_fit_at_def)
qed

lemma quarter_minus_one: "fsub (Fin (1 / 4)) (Fin 1) = Fin (- (3 / 4))"
proof -
  have "round64 (- (3 / 4)) = Fin (- (3 / 4))"
    by (rule round64_exact [where m = "- 3" and e = "- 2"]) simp_all
  then show ?thesis by (simp add: fsub_def)
qed

lemma three_quarters_minus_one: "fsub (Fin (3 / 4)) (Fin 1) = Fin (- (1 / 4))"
proof -
  have "round64 (- (1 / 4)) = Fin (- (1 / 4))"
    by (rule round64_exact [where m = "- 1" and e = "- 2"]) simp_all
  then show ?thesis by (simp add: fsub_def)
qed

lemma flat_quartiles:
  "RQ [Fin 1] [[Fin 0]] (Fin (1 / 4)) = Inr (flat_fit_at (1 / 4))"
  "RQ [Fin 1] [[Fin 0]] (Fin (3 / 4)) = Inr (flat_fit_at (3 / 4))"
  "RQ [Fin 1] [[Fin 0]] (Fin (1 / 2)) = Inr (flat_fit_at (1 / 2))"
  by (rule flat_fit_at_eq [OF _ _ quarter_minus_one], simp, simp)
     (rule flat_fit_at_eq [OF _ _ three_quarters_minus_one], simp, simp,
      rule flat_fit_at_eq [OF _ _ half_minus_one], simp, simp)

lemma sort_quartiles: "Float64s [Fin (3 / 4), Fin (1 / 4)] = [Fin (1 / 4), Fin (3 / 4)]"
  by (simp add: Float64s_def float64_less_def)

lemma sort_halves: "Float64s [Fin (1 / 2), Fin (1 / 2)] = [Fin (1 / 2), Fin (1 / 2)]"
  by (simp add: Float64s_def float64_less_def)

lemma sort_half: "Float64s [Fin (1 / 2)] = [Fin (1 / 2)]"
  by (simp add: Float64s_def)

lemma quartile_multi_eq:
  "RQProcess [Fin 1] [[Fin 0]] [Fin (3 / 4), Fin (1 / 4)] = Inr quartile_multi"
proof -
  have "RQProcess [Fin 1] [[Fin 0]] [Fin (3 / 4), Fin (1 / 4)] =
      Inr (multi_rq_of (\<lambda>t. case t of Fin r \<Rightarrow> flat_fit_at r) [Fin (3 / 4), Fin (1 / 4)])"
    by (rule RQProcess_ok) (auto simp: outside_unit_def flat_quartiles)
  also have "multi_rq_of (\<lambda>t. case t of Fin r \<Rightarrow> flat_fit_at r) [Fin (3 / 4), Fin (1 / 4)] =
      quartile_multi"
    by (auto simp: multi_rq_of_def sort_quartiles collect_fits_def quartile_multi_def
          flat_fit_at_def fun_eq_iff)
  finally show ?thesis .
qed

lemma twice_multi_eq:
  "RQProcess [Fin 1] [[Fin 0]] [Fin (1 / 2), Fin (1 / 2)] = Inr twice_multi"
proof -
  have "RQProcess [Fin 1] [[Fin 0]] [Fin (1 / 2), Fin (1 / 2)] =
      Inr (multi_rq_of (\<lambda>t. case t of Fin r \<Rightarrow> flat_fit_at r) [Fin (1 / 2), Fin (1 / 2)])"
    by (rule RQProcess_ok) (auto simp: outside_unit_def flat_quartiles)
  also have "multi_rq_of (\<lambda>t. case t of Fin r \<Rightarrow> flat_fit_at r) [Fin (1 / 2), Fin (1 / 2)] =
      twice_multi"
    by (auto simp: multi_rq_of_def sort_halves collect_fits_def twice_multi_def
          flat_fit_at_def fun_eq_iff)
  finally show ?thesis .
qed

lemma tiny_multi_eq:
  "NLRQProcess [Fin 2, Fin tiny] [[], []] intercept_model [Fin 1] [Fin (1 / 2)] = Inr tiny_multi"
proof -
  have "NLRQProcess [Fin 2, Fin tiny] [[], []] intercept_model [Fin 1] [Fin (1 / 2)] =
      Inr (multi_nlrq_of (\<lambda>t. tiny_fit) intercept_model [Fin (1 / 2)])"
    by (rule NLRQProcess_ok) (auto simp: outside_unit_def tiny_fit_eq)
  also have "multi_nlrq_of (\<lambda>t. tiny_fit) intercept_model [Fin (1 / 2)] = tiny_multi"
    by (auto simp: multi_nlrq_of_def sort_half collect_fits_def tiny_multi_def
          tiny_fit_def fun_eq_iff)
  finally show ?thesis .
qed


section \<open>The subgradient of the check loss\<close>




section \<open>Rejected quantile levels and the iteration cap\<close>




section \<open>The aggregate of fits for several quantile levels\<close>

text \<open>
  Claim C3, as the code has it. When \<open>RQProcess\<close> or \<open>NLRQProcess\<close> returns an aggregate
  for quantile levels that all lie strictly between 0 and 1, the sequence \<open>Taus\<close> is the
  requested sequence in ascending order: it has the same elements with the same
  multiplicities, so a level requested twice is listed twice. The mapping \<open>Fits\<close> is keyed by
  exactly the requested levels, each key holds the fit that \<open>RQ\<close> (respectively \<open>NLRQ\<close>)
  returns for that level on the same data, and \<open>N\<close> and \<open>P\<close> of the aggregate are the \<open>N\<close> and
  \<open>P\<close> of every one of these fits, in particular of the fit for the first level.
\<close>

theorem Process_aggregate:
  "(list_all valid_tau taus \<and> RQProcess y x taus = Inr m \<longrightarrow>
      mset (MultiRQFit.Taus m) = mset taus \<and>
      sorted_wrt fle (MultiRQFit.Taus m) \<and>
      dom (MultiRQFit.Fits m) = set taus \<and>
      (\<forall>t\<in>set taus. \<exists>fit. RQ y x t = Inr fit \<and> MultiRQFit.Fits m t = Some fit \<and>
         MultiRQFit.N m = RQFit.N fit \<and> MultiRQFit.P m = RQFit.P fit)) \<and>
   (list_all valid_tau taus' \<and> NLRQProcess y' x' model beta0 taus' = Inr nm \<longrightarrow>
      mset (MultiNLRQFit.Taus nm) = mset taus' \<and>
      sorted_wrt fle (MultiNLRQFit.Taus nm) \<and>
      dom (MultiNLRQFit.Fits nm) = set taus' \<and>
      (\<forall>t\<in>set taus'. \<exists>fit. NLRQ y' x' model beta0 t = Inr fit \<and>
         MultiNLRQFit.Fits nm t = Some fit \<and>
         MultiNLRQFit.N nm = NLRQFit.N fit \<and> MultiNLRQFit.P nm = NLRQFit.P fit))"
proof (intro conjI impI ballI)
  assume a: "list_all valid_tau taus \<and> RQProcess y x taus = Inr m"
  then have v: "list_all valid_tau taus" and r: "RQProcess y x taus = Inr m" by simp_all
  let ?g = "\<lambda>t. projr (RQ y x t)"
  have m: "m = multi_rq_of ?g taus" using r by (rule RQProcess_Inr(4))
  show "mset (MultiRQFit.Taus m) = mset taus"
    by (simp add: m multi_rq_of_facts(1) [OF v] mset_Float64s)
  show "sorted_wrt fle (MultiRQFit.Taus m)"
    by (simp add: m multi_rq_of_facts(1) [OF v] sorted_Float64s_valid [OF v])
  show "dom (MultiRQFit.Fits m) = set taus"
    by (simp only: m multi_rq_of_facts(2) [OF v])
  fix t assume t: "t \<in> set taus"
  have ne: "taus \<noteq> []" using t by auto
  have ok: "\<And>u. u \<in> set taus \<Longrightarrow> RQ y x u = Inr (?g u)"
    using RQProcess_Inr(3) [OF r] by blast
  have h: "hd (Float64s taus) \<in> set taus"
    using ne hd_in_set [of "Float64s taus"] by (simp add: Float64s_Nil_iff set_Float64s)
  have "?g t = rq_result y x t" "?g (hd (Float64s taus)) = rq_result y x (hd (Float64s taus))"
    using ok [OF t] ok [OF h] RQ_Inr by blast+
  then have "MultiRQFit.N m = RQFit.N (?g t)" "MultiRQFit.P m = RQFit.P (?g t)"
    by (simp_all add: m multi_rq_of_facts(4,5) [OF v] rq_result_def rq_fit_of_def Let_def)
  moreover have "MultiRQFit.Fits m t = Some (?g t)"
    by (simp only: m multi_rq_of_facts(3) [OF v t])
  ultimately show "\<exists>fit. RQ y x t = Inr fit \<and> MultiRQFit.Fits m t = Some fit \<and>
         MultiRQFit.N m = RQFit.N fit \<and> MultiRQFit.P m = RQFit.P fit"
    using ok [OF t] by blast
next
  assume a: "list_all valid_tau taus' \<and> NLRQProcess y' x' model beta0 taus' = Inr nm"
  then have v: "list_all valid_tau taus'"
    and r: "NLRQProcess y' x' model beta0 taus' = Inr nm" by simp_all
  let ?g = "\<lambda>t. projr (NLRQ y' x' model beta0 t)"
  have m: "nm = multi_nlrq_of ?g model taus'" using r by (rule NLRQProcess_Inr(4))
  show "mset (MultiNLRQFit.Taus nm) = mset taus'"
    by (simp add: m multi_nlrq_of_facts(1) [OF v] mset_Float64s)
  show "sorted_wrt fle (MultiNLRQFit.Taus nm)"
    by (simp add: m multi_nlrq_of_facts(1) [OF v] sorted_Float64s_valid [OF v])
  show "dom (MultiNLRQFit.Fits nm) = set taus'"
    by (simp only: m multi_nlrq_of_facts(2) [OF v])
  fix t assume t: "t \<in> set taus'"
  have ne: "taus' \<noteq> []" using t by auto
  have ok: "\<And>u. u \<in> set taus' \<Longrightarrow> NLRQ y' x' model beta0 u = Inr (?g u)"
    using NLRQProcess_Inr(3) [OF r] by blast
  have h: "hd (Float64s taus') \<in> set taus'"
    using ne hd_in_set [of "Float64s taus'"] by (simp add: Float64s_Nil_iff set_Float64s)
  obtain c1 where c1: "?g t = nlrq_fit_of y' x' model beta0 t c1"
    using ok [OF t] NLRQ_Inr by blast
  obtain c2 where c2: "?g (hd (Float64s taus')) =
      nlrq_fit_of y' x' model beta0 (hd (Float64s taus')) c2"
    using ok [OF h] NLRQ_Inr by blast
  have "MultiNLRQFit.N nm = NLRQFit.N (?g t)" "MultiNLRQFit.P nm = NLRQFit.P (?g t)"
    by (simp_all add: m multi_nlrq_of_facts(4,5) [OF v] c1 c2 nlrq_fit_of_def Let_def)
  moreover have "MultiNLRQFit.Fits nm t = Some (?g t)"
    by (simp only: m multi_nlrq_of_facts(3) [OF v t])
  ultimately show "\<exists>fit. NLRQ y' x' model beta0 t = Inr fit \<and>
         MultiNLRQFit.Fits nm t = Some fit \<and>
         MultiNLRQFit.N nm = NLRQFit.N fit \<and> MultiNLRQFit.P nm = NLRQFit.P fit"
    using ok [OF t] by blast
qed

text \<open>
  The theorem at concrete inputs: the levels 3/4 and 1/4, requested in this order, for
  the linear fit, and the level 1/2 for the non-linear fit.
\<close>

theorem Process_aggregate_witness:
  "mset (MultiRQFit.Taus quartile_multi) = mset [Fin (3 / 4), Fin (1 / 4)] \<and>
   sorted_wrt fle (MultiRQFit.Taus quartile_multi) \<and>
   dom (MultiRQFit.Fits quartile_multi) = set [Fin (3 / 4), Fin (1 / 4)] \<and>
   (\<exists>fit. RQ [Fin 1] [[Fin 0]] (Fin (3 / 4)) = Inr fit \<and>
      MultiRQFit.Fits quartile_multi (Fin (3 / 4)) = Some fit \<and>
      MultiRQFit.N quartile_multi = RQFit.N fit \<and> MultiRQFit.P quartile_multi = RQFit.P fit) \<and>
   mset (MultiNLRQFit.Taus tiny_multi) = mset [Fin (1 / 2)] \<and>
   sorted_wrt fle (MultiNLRQFit.Taus tiny_multi) \<and>
   dom (MultiNLRQFit.Fits tiny_multi) = set [Fin (1 / 2)] \<and>
   (\<exists>fit. NLRQ [Fin 2, Fin tiny] [[], []] intercept_model [Fin 1] (Fin (1 / 2)) = Inr fit \<and>
      MultiNLRQFit.Fits tiny_multi (Fin (1 / 2)) = Some fit \<and>
      MultiNLRQFit.N tiny_multi = NLRQFit.N fit \<and> MultiNLRQFit.P tiny_multi = NLRQFit.P fit)"
proof -
  have v: "list_all valid_tau [Fin (3 / 4), Fin (1 / 4)]" "list_all valid_tau [Fin (1 / 2)]"
    by (simp_all add: valid_tau_def)
  have s: "Fin (3 / 4) \<in> set [Fin (3 / 4), Fin (1 / 4)]" "Fin (1 / 2) \<in> set [Fin (1 / 2)]"
    by simp_all
  note t = Process_aggregate [where taus = "[Fin (3 / 4), Fin (1 / 4)]" and y = "[Fin 1]"
      and x = "[[Fin 0]]" and m = quartile_multi and taus' = "[Fin (1 / 2)]"
      and y' = "[Fin 2, Fin tiny]" and x' = "[[], []]" and model = intercept_model
      and ?beta0.0 = "[Fin 1]" and nm = tiny_multi]
  show ?thesis
    using t v s quartile_multi_eq tiny_multi_eq by blast
qed

text \<open>
  The sequence of levels is not deduplicated: requesting the level 1/2 twice gives an
  aggregate whose \<open>Taus\<close> lists it twice.
\<close>

theorem Taus_not_deduplicated_counterexample:
  "list_all valid_tau [Fin (1 / 2), Fin (1 / 2)] \<and>
   RQProcess [Fin 1] [[Fin 0]] [Fin (1 / 2), Fin (1 / 2)] = Inr twice_multi \<and>
   MultiRQFit.Taus twice_multi = [Fin (1 / 2), Fin (1 / 2)] \<and>
   MultiRQFit.Taus twice_multi \<noteq> Float64s (remdups [Fin (1 / 2), Fin (1 / 2)])"
  by (simp add: twice_multi_eq) (simp add: twice_multi_def valid_tau_def Float64s_def)

section \<open>Residuals, fitted values and the response\<close>

text \<open>
  Claim C7, as the code has it. In every fit returned by \<open>RQ\<close> or \<open>NLRQ\<close> the residual
  and fitted vectors have length \<open>N\<close>, the number of observations, and each residual is
  the binary64 difference of the response and the fitted value. The difference is rounded,
  so adding the fitted value back need not return the response.
\<close>

theorem residuals_defined_by_subtraction:
  "(RQ y x tau = Inr fit \<longrightarrow>
      RQFit.N fit = length y \<and>
      length (RQFit.Residuals fit) = RQFit.N fit \<and>
      length (RQFit.Fitted fit) = RQFit.N fit \<and>
      (\<forall>i<RQFit.N fit. RQFit.Residuals fit ! i = fsub (y ! i) (RQFit.Fitted fit ! i))) \<and>
   (NLRQ y x model beta0 tau = Inr nfit \<longrightarrow>
      NLRQFit.N nfit = length y \<and>
      length (NLRQFit.Residuals nfit) = NLRQFit.N nfit \<and>
      length (NLRQFit.Fitted nfit) = NLRQFit.N nfit \<and>
      (\<forall>i<NLRQFit.N nfit. NLRQFit.Residuals nfit ! i = fsub (y ! i) (NLRQFit.Fitted nfit ! i)))"
proof (intro conjI impI)
  assume "RQ y x tau = Inr fit"
  then have fit: "fit = rq_result y x tau" by (rule RQ_Inr)
  show "RQFit.N fit = length y" "length (RQFit.Residuals fit) = RQFit.N fit"
    "length (RQFit.Fitted fit) = RQFit.N fit"
    "\<forall>i<RQFit.N fit. RQFit.Residuals fit ! i = fsub (y ! i) (RQFit.Fitted fit ! i)"
    by (simp_all add: fit rq_result_def rq_fit_of_def Let_def)
next
  assume "NLRQ y x model beta0 tau = Inr nfit"
  then obtain coef where fit: "nfit = nlrq_fit_of y x model beta0 tau coef"
    using NLRQ_Inr by blast
  show "NLRQFit.N nfit = length y" "length (NLRQFit.Residuals nfit) = NLRQFit.N nfit"
    "length (NLRQFit.Fitted nfit) = NLRQFit.N nfit"
    "\<forall>i<NLRQFit.N nfit. NLRQFit.Residuals nfit ! i = fsub (y ! i) (NLRQFit.Fitted nfit ! i)"
    by (simp_all add: fit nlrq_fit_of_def Let_def)
qed

theorem residuals_defined_by_subtraction_witness:
  "RQFit.N flat_fit = length [Fin 1 :: f64] \<and>
   length (RQFit.Residuals flat_fit) = RQFit.N flat_fit \<and>
   length (RQFit.Fitted flat_fit) = RQFit.N flat_fit \<and>
   RQFit.Residuals flat_fit ! 0 = fsub ([Fin 1] ! 0) (RQFit.Fitted flat_fit ! 0) \<and>
   NLRQFit.N tiny_fit = length [Fin 2, Fin tiny] \<and>
   length (NLRQFit.Residuals tiny_fit) = NLRQFit.N tiny_fit \<and>
   length (NLRQFit.Fitted tiny_fit) = NLRQFit.N tiny_fit \<and>
   NLRQFit.Residuals tiny_fit ! 1 = fsub ([Fin 2, Fin tiny] ! 1) (NLRQFit.Fitted tiny_fit ! 1)"
proof -
  have a: "0 < RQFit.N flat_fit" by (simp add: flat_fit_def)
  have b: "1 < NLRQFit.N tiny_fit" by (simp add: tiny_fit_def)
  show ?thesis
    using residuals_defined_by_subtraction [where y = "[Fin 1]" and x = "[[Fin 0]]"
        and tau = "Fin (1 / 2)" and fit = flat_fit]
      residuals_defined_by_subtraction [where y = "[Fin 2, Fin tiny]" and x = "[[], []]"
        and tau = "Fin (1 / 2)" and model = intercept_model and ?beta0.0 = "[Fin 1]"
        and nfit = tiny_fit]
      flat_fit_eq tiny_fit_eq a b
    by blast
qed

text \<open>
  The intercept-only model started at its optimum: the responses are 2 and \<open>2\<^sup>-\<^sup>7\<^sup>0\<close>, the
  fitted value is 1 for both. The second residual rounds to \<open>-1\<close>, and fitted plus
  residual is 0, not the response.
\<close>

theorem fitted_plus_residual_counterexample:
  "round64 tiny = Fin tiny \<and>
   NLRQ [Fin 2, Fin tiny] [[], []] intercept_model [Fin 1] (Fin (1 / 2)) = Inr tiny_fit \<and>
   fadd (NLRQFit.Fitted tiny_fit ! 1) (NLRQFit.Residuals tiny_fit ! 1) = Fin 0 \<and>
   [Fin 2, Fin tiny] ! 1 \<noteq> Fin 0"
  by (simp add: tiny_representable tiny_fit_eq) (simp add: tiny_fit_def tiny_def round64_0)


section \<open>The barrier variables of the non-linear solver\<close>

text \<open>
  Claim C8. \<open>solveInteriorPoint\<close> carries the barrier coefficient \<open>t\<close>, started at 1 and
  multiplied by \<open>mu = 10\<close> after every parameter update, but nothing reads it: the solver
  returns exactly what the same iteration without the two variables returns, panics
  included.
\<close>

theorem barrier_state_inert:
  "solveInteriorPoint fit y x beta0 = solve_without_barrier fit y x beta0"
  by (simp add: solveInteriorPoint_def solve_without_barrier_def Let_def ip_iterate_plain)


section \<open>Prediction errors\<close>





section \<open>Row lengths that neither RQ nor Predict checks\<close>

text \<open>
  Claim C10. \<open>RQ\<close> takes the number of parameters from the first covariate row and
  \<open>Predict\<close> checks the width of the first new row only; neither looks at the length of
  any other row before indexing it. When every row has at least that many entries
  (\<open>rows_ok\<close>) every read is in bounds and the result is the fit, respectively the
  predictions; when some row is shorter the call ends in an index-out-of-range panic,
  not in a \<open>DimensionMismatch\<close> error. The second part is about a fit whose coefficient
  vector has at least \<open>P\<close> entries, as every fit returned by \<open>RQ\<close> has.
\<close>

theorem unchecked_row_lengths:
  "(y \<noteq> [] \<and> length x = length y \<and> \<not> (fle tau (Fin 0) \<or> fge tau (Fin 1)) \<longrightarrow>
      (rows_ok x (length (hd x)) \<longrightarrow> RQ y x tau = Inr (rq_result y x tau)) \<and>
      (\<not> rows_ok x (length (hd x)) \<longrightarrow> RQ y x tau = Inl (Panic IndexOutOfRange))) \<and>
   (newX \<noteq> [] \<and> length (hd newX) = RQFit.P fit \<and>
    RQFit.P fit \<le> length (RQFit.Coefficients fit) \<longrightarrow>
      (rows_ok newX (RQFit.P fit) \<longrightarrow>
         RQFit_Predict fit newX =
           Inr (map (\<lambda>row. dot row (RQFit.Coefficients fit) (RQFit.P fit)) newX)) \<and>
      (\<not> rows_ok newX (RQFit.P fit) \<longrightarrow>
         RQFit_Predict fit newX = Inl (Panic IndexOutOfRange)))"
  by (auto simp: RQ_eq RQFit_Predict_eq rows_ok_nth)

theorem unchecked_row_lengths_witness:
  "RQ [Fin 1] [[Fin 0]] (Fin (1 / 2)) = Inr (rq_result [Fin 1] [[Fin 0]] (Fin (1 / 2))) \<and>
   RQ [Fin 1, Fin 2] [[Fin 0], []] (Fin (1 / 2)) = Inl (Panic IndexOutOfRange) \<and>
   RQFit_Predict line_fit [[Fin 1, Fin 1]] =
     Inr (map (\<lambda>row. dot row (RQFit.Coefficients line_fit) (RQFit.P line_fit))
            [[Fin 1, Fin 1]]) \<and>
   RQFit_Predict line_fit [[Fin 1, Fin 1], [Fin 1]] = Inl (Panic IndexOutOfRange)"
proof -
  have a: "rows_ok [[Fin 0 :: f64]] (length (hd [[Fin 0 :: f64]]))"
    "\<not> rows_ok [[Fin 0 :: f64], []] (length (hd [[Fin 0 :: f64], []]))"
    "rows_ok [[Fin 1 :: f64, Fin 1]] (RQFit.P line_fit)"
    "\<not> rows_ok [[Fin 1 :: f64, Fin 1], [Fin 1]] (RQFit.P line_fit)"
    "RQFit.P line_fit \<le> length (RQFit.Coefficients line_fit)"
    "length (hd [[Fin 1 :: f64, Fin 1]]) = RQFit.P line_fit"
    by (simp_all add: rows_ok_def line_fit_def)
  show ?thesis
    using unchecked_row_lengths [where y = "[Fin 1]" and x = "[[Fin 0]]"
        and tau = "Fin (1 / 2)" and fit = line_fit and newX = "[[Fin 1, Fin 1]]"]
      unchecked_row_lengths [where y = "[Fin 1, Fin 2]" and x = "[[Fin 0], []]"
        and tau = "Fin (1 / 2)" and fit = line_fit and newX = "[[Fin 1, Fin 1], [Fin 1]]"]
      tau_half_ok a
    by simp
qed


end
